theory Spec2Isabelle
  imports Main "HOL-Library.Word" "HOL-Library.Sublist"
begin

section \<open>Post lifecycle manager of postpal (package zola)\<close>

text \<open>
  Go strings are byte sequences; they are modelled as \<open>string\<close> (a list of 8-bit
  characters).  Byte slices (\<open>[]byte\<close>) are lists of 8-bit words, \<open>int64\<close> is
  \<open>64 word\<close> read through \<open>sint\<close>, so subtraction wraps as it does in Go.
\<close>

type_synonym byte = "8 word"
type_synonym int64 = "64 word"

subsection \<open>The parts of the Go standard library the package calls\<close>

text \<open>The character with a given byte value (\<open>char_of\<close>, written out bit by bit).\<close>

definition byte_char :: "nat \<Rightarrow> char" where
  "byte_char n = Char (odd n) (odd (n div 2)) (odd (n div 4)) (odd (n div 8))
                      (odd (n div 16)) (odd (n div 32)) (odd (n div 64)) (odd (n div 128))"

text \<open>\<open>[]byte(s)\<close>: the bytes of a string.\<close>

definition bytes_of :: "string \<Rightarrow> byte list" where
  "bytes_of s = map (\<lambda>c. word_of_nat (of_char c)) s"

text \<open>Go compares strings bytewise (\<open>a < b\<close>).\<close>

fun str_less :: "string \<Rightarrow> string \<Rightarrow> bool" where
  "str_less [] [] = False"
| "str_less [] (y # ys) = True"
| "str_less (x # xs) [] = False"
| "str_less (x # xs) (y # ys) =
     ((of_char x :: nat) < of_char y \<or> (x = y \<and> str_less xs ys))"

text \<open>
  Sorting by name, as \<open>os.ReadDir\<close> returns its entries and as \<open>sort.Slice\<close> with the
  comparison \<open>imageNames[i] < imageNames[j]\<close> leaves the slice (names in one directory are
  distinct, so the result does not depend on the sorting algorithm).
\<close>

fun insert_by_name :: "string \<times> 'a \<Rightarrow> (string \<times> 'a) list \<Rightarrow> (string \<times> 'a) list" where
  "insert_by_name e [] = [e]"
| "insert_by_name e (x # xs) =
     (if str_less (fst x) (fst e) then x # insert_by_name e xs else e # x # xs)"

definition sort_by_name :: "(string \<times> 'a) list \<Rightarrow> (string \<times> 'a) list" where
  "sort_by_name xs = foldr insert_by_name xs []"

definition sort_names :: "string list \<Rightarrow> string list" where
  "sort_names ns = map fst (sort_by_name (map (\<lambda>n. (n, ())) ns))"

text \<open>\<open>strings.HasPrefix\<close> is \<open>prefix\<close>.  \<open>strings.Contains(s, sub)\<close>:\<close>

fun Contains :: "string \<Rightarrow> string \<Rightarrow> bool" where
  "Contains [] sub = (sub = [])"
| "Contains (c # cs) sub = (prefix sub (c # cs) \<or> Contains cs sub)"

text \<open>\<open>strings.Index(s, sub)\<close>, with \<open>None\<close> for \<open>-1\<close>.\<close>

fun Index :: "string \<Rightarrow> string \<Rightarrow> nat option" where
  "Index [] sub = (if sub = [] then Some 0 else None)"
| "Index (c # cs) sub =
     (if prefix sub (c # cs) then Some 0 else map_option Suc (Index cs sub))"

text \<open>
  \<open>strings.Split(s, sep)\<close> for a separator of one byte (the package splits on \<open>","\<close> and
  on \<open>"."\<close> only); an input without the separator gives the one-element list \<open>[s]\<close>.
\<close>

fun Split :: "string \<Rightarrow> char \<Rightarrow> string list" where
  "Split [] sep = [[]]"
| "Split (c # cs) sep =
     (if c = sep then [] # Split cs sep
      else (case Split cs sep of [] \<Rightarrow> [[c]] | w # ws \<Rightarrow> (c # w) # ws))"

text \<open>
  \<open>strings.ReplaceAll(s, old, new)\<close>: the non-overlapping occurrences of \<open>old\<close>, found
  from the left.  Every call site passes a non-empty \<open>old\<close>; for an empty \<open>old\<close> Go
  inserts \<open>new\<close> before every rune and at the end, which the model does bytewise.
\<close>

fun ReplaceAll :: "string \<Rightarrow> string \<Rightarrow> string \<Rightarrow> string" where
  "ReplaceAll [] old new = (if old = [] then new else [])"
| "ReplaceAll (c # cs) old new =
     (if old = [] then new @ c # ReplaceAll cs old new
      else if prefix old (c # cs) then new @ ReplaceAll (drop (length old - 1) cs) old new
      else c # ReplaceAll cs old new)"

text \<open>\<open>strings.TrimRight(s, "\n")\<close>: all trailing line feeds removed.\<close>

definition TrimRight_nl :: "string \<Rightarrow> string" where
  "TrimRight_nl s = rev (dropWhile (\<lambda>c. c = CHR 0x0A) (rev s))"

text \<open>
  \<open>strings.TrimSpace\<close> removes the leading and trailing runes that \<open>unicode.IsSpace\<close>
  accepts.  On the bytes of the string these are the following UTF-8 encodings: the six
  ASCII spaces, U+0085, U+00A0, U+1680, U+2000 to U+200A, U+2028, U+2029, U+202F, U+205F
  and U+3000.  A byte sequence that is not valid UTF-8 decodes to U+FFFD, which is no space.
\<close>

definition space_runes :: "string list" where
  "space_runes =
     [[CHR 0x09], [CHR 0x0A], [CHR 0x0B], [CHR 0x0C], [CHR 0x0D], [CHR 0x20],
      [CHR 0xC2, CHR 0x85], [CHR 0xC2, CHR 0xA0], [CHR 0xE1, CHR 0x9A, CHR 0x80],
      [CHR 0xE2, CHR 0x80, CHR 0x80], [CHR 0xE2, CHR 0x80, CHR 0x81],
      [CHR 0xE2, CHR 0x80, CHR 0x82], [CHR 0xE2, CHR 0x80, CHR 0x83],
      [CHR 0xE2, CHR 0x80, CHR 0x84], [CHR 0xE2, CHR 0x80, CHR 0x85],
      [CHR 0xE2, CHR 0x80, CHR 0x86], [CHR 0xE2, CHR 0x80, CHR 0x87],
      [CHR 0xE2, CHR 0x80, CHR 0x88], [CHR 0xE2, CHR 0x80, CHR 0x89],
      [CHR 0xE2, CHR 0x80, CHR 0x8A], [CHR 0xE2, CHR 0x80, CHR 0xA8],
      [CHR 0xE2, CHR 0x80, CHR 0xA9], [CHR 0xE2, CHR 0x80, CHR 0xAF],
      [CHR 0xE2, CHR 0x81, CHR 0x9F], [CHR 0xE3, CHR 0x80, CHR 0x80]]"

text \<open>
  Leading runes of the list \<open>rs\<close> are dropped one after the other.  A trailing rune is a
  suffix, that is a prefix of the reversed string, so the right trim is the left trim of
  the reversed string by the reversed encodings (\<open>utf8.DecodeLastRuneInString\<close> walks back
  to the nearest start byte, which is where a well-formed suffix begins).
\<close>

fun trim_left :: "string list \<Rightarrow> string \<Rightarrow> string" where
  "trim_left rs [] = []"
| "trim_left rs (c # cs) =
     (case find (\<lambda>e. e \<noteq> [] \<and> prefix e (c # cs)) rs of
        None \<Rightarrow> c # cs
      | Some e \<Rightarrow> trim_left rs (drop (length e - 1) cs))"

definition TrimSpace :: "string \<Rightarrow> string" where
  "TrimSpace s = rev (trim_left (map rev space_runes) (rev (trim_left space_runes s)))"

text \<open>
  \<open>strconv.FormatInt(i, 10)\<close> and the verb \<open>%d\<close> of \<open>fmt.Sprintf\<close>: decimal digits, with
  a minus sign for a negative value.
\<close>

fun dec_nat :: "nat \<Rightarrow> string" where
  "dec_nat n = (if n < 10 then [''0123456789'' ! n]
                else dec_nat (n div 10) @ [''0123456789'' ! (n mod 10)])"

declare dec_nat.simps [simp del]

definition dec_int :: "int \<Rightarrow> string" where
  "dec_int v = (if v < 0 then CHR ''-'' # dec_nat (nat (- v)) else dec_nat (nat v))"

definition FormatInt :: "int64 \<Rightarrow> string" where
  "FormatInt i = dec_int (sint i)"

text \<open>
  \<open>strconv.ParseInt(s, 10, 64)\<close>: an optional sign, then one or more decimal digits and
  nothing else; a value outside the range of \<open>int64\<close> is an error as well.  The error is
  \<open>None\<close>: the callers only test whether there is one.
\<close>

definition is_digit :: "char \<Rightarrow> bool" where
  "is_digit c = (48 \<le> (of_char c :: nat) \<and> (of_char c :: nat) \<le> 57)"

definition digit_val :: "char \<Rightarrow> nat" where
  "digit_val c = of_char c - 48"

definition ParseUint :: "string \<Rightarrow> nat option" where
  "ParseUint s =
     (if s = [] \<or> \<not> list_all is_digit s then None
      else (let n = foldl (\<lambda>a c. 10 * a + digit_val c) 0 s
            in if n < 2 ^ 64 then Some n else None))"

definition ParseInt :: "string \<Rightarrow> int64 option" where
  "ParseInt s =
     (case s of
        [] \<Rightarrow> None
      | c # cs \<Rightarrow>
          (let neg = (c = CHR ''-'');
               s' = (if c = CHR ''+'' \<or> c = CHR ''-'' then cs else s)
           in case ParseUint s' of
                None \<Rightarrow> None
              | Some un \<Rightarrow>
                  if \<not> neg \<and> un \<ge> 2 ^ 63 then None
                  else if neg \<and> un > 2 ^ 63 then None
                  else Some (if neg then - word_of_nat un else word_of_nat un)))"

text \<open>Go's \<open>abs\<close> of service.go on \<open>int64\<close>: the negation wraps at the least value.\<close>

definition abs64 :: "int64 \<Rightarrow> int64" where
  "abs64 x = (if sint x < 0 then - x else x)"


subsection \<open>Image classifier (service.go, getImageFormat)\<close>

definition getImageFormat :: "byte list \<Rightarrow> string" where
  "getImageFormat data =
     (if length data < 4 then ''jpg''
      else if length data \<ge> 4 \<and> data ! 0 = 0xFF \<and> data ! 1 = 0xD8 \<and> data ! 2 = 0xFF
        then ''jpg''
      else if length data \<ge> 8 \<and> data ! 0 = 0x89 \<and> data ! 1 = 0x50 \<and> data ! 2 = 0x4E
                \<and> data ! 3 = 0x47
        then ''png''
      else if length data \<ge> 6 \<and> data ! 0 = 0x47 \<and> data ! 1 = 0x49 \<and> data ! 2 = 0x46
        then ''gif''
      else if length data \<ge> 12 \<and> data ! 0 = 0x52 \<and> data ! 1 = 0x49 \<and> data ! 2 = 0x46
                \<and> data ! 3 = 0x46
                \<and> (length data \<ge> 12 \<and> take 4 (drop 8 data) = [0x57, 0x45, 0x42, 0x50])
        then ''webp''
      else ''jpg'')"

subsection \<open>Markup transformer (ProcessContent)\<close>

text \<open>
  The regular expressions of ProcessContent are matched by Go's \<open>regexp\<close> package:
  leftmost match, the lazy \<open>*?\<close> taking the shortest text that lets the rest match, the
  next search starting where the last match ended.  Each pattern is a fixed opening text,
  lazy groups and a fixed closing text, so a match at a position exists exactly when the
  closing text occurs after the opening one, and the group ends at its first occurrence.
  All pattern characters are ASCII, so matching on bytes is matching on runes.
\<close>

definition lazyMatch :: "string \<Rightarrow> string \<Rightarrow> string \<Rightarrow> (string \<times> nat) option" where
  "lazyMatch opening closing s =
     (if prefix opening s then
        (case Index (drop (length opening) s) closing of
           None \<Rightarrow> None
         | Some i \<Rightarrow> Some (take i (drop (length opening) s),
                            length opening + i + length closing))
      else None)"

text \<open>
  \<open>ReplaceAllStringFunc\<close> and \<open>ReplaceAllString\<close>: \<open>m s\<close> is the match that starts at
  the first byte of \<open>s\<close>, given as its replacement and its length (no pattern of the
  package matches the empty string).
\<close>

fun regexReplaceAll :: "(string \<Rightarrow> (string \<times> nat) option) \<Rightarrow> string \<Rightarrow> string" where
  "regexReplaceAll m [] = []"
| "regexReplaceAll m (c # cs) =
     (case m (c # cs) of
        None \<Rightarrow> c # regexReplaceAll m cs
      | Some (replacement, n) \<Rightarrow> replacement @ regexReplaceAll m (drop (n - 1) cs))"

text \<open>
  Step 1, \<open><code>([\s\S]*?)</code>\<close>: the angle brackets inside an inline code span are
  escaped.
\<close>

definition escape_angle :: "string \<Rightarrow> string" where
  "escape_angle codeContent = ReplaceAll (ReplaceAll codeContent ''<'' ''&lt;'') ''>'' ''&gt;''"

definition codeMatch :: "string \<Rightarrow> (string \<times> nat) option" where
  "codeMatch s =
     map_option (\<lambda>(codeContent, n). (''<code>'' @ escape_angle codeContent @ ''</code>'', n))
       (lazyMatch ''<code>'' ''</code>'' s)"

text \<open>
  Step 2, \<open><pre><code class="language-(.*?)">([\s\S]*?)</code></pre>\<close>.  The language
  group \<open>(.*?)\<close> cannot hold a line feed and ends at the first \<open>">\<close>; the body ends at the
  first \<open></code></pre>\<close> after it.  \<open>codeBlockMatch s\<close> is the match that starts at the
  first byte of \<open>s\<close>: language, body and the length of the whole match.
\<close>

definition codeBlockMatch :: "string \<Rightarrow> (string \<times> string \<times> nat) option" where
  "codeBlockMatch s =
     (case lazyMatch ''<pre><code class=\"language-'' ''\">'' s of
        None \<Rightarrow> None
      | Some (language, n1) \<Rightarrow>
          if CHR 0x0A \<in> set language then None
          else (case lazyMatch [] ''</code></pre>'' (drop n1 s) of
                  None \<Rightarrow> None
                | Some (body, n2) \<Rightarrow> Some (language, body, n1 + n2)))"

text \<open>
  \<open>string(rune('A'+codeIndex))\<close>: the conversion to \<open>rune\<close> keeps the low 32 bits as a
  signed value, and the conversion to a string is the UTF-8 encoding of the code point,
  U+FFFD for a surrogate and for a value that is no code point.
\<close>

definition rune_string :: "int \<Rightarrow> string" where
  "rune_string r =
     (let n = nat r in
      if r < 0 \<or> r > 0x10FFFF \<or> (0xD800 \<le> r \<and> r \<le> 0xDFFF)
        then [CHR 0xEF, CHR 0xBF, CHR 0xBD]
      else if n < 0x80 then [byte_char n]
      else if n < 0x800 then [byte_char (0xC0 + n div 64), byte_char (0x80 + n mod 64)]
      else if n < 0x10000 then
        [byte_char (0xE0 + n div 4096), byte_char (0x80 + (n div 64) mod 64),
         byte_char (0x80 + n mod 64)]
      else
        [byte_char (0xF0 + n div 262144), byte_char (0x80 + (n div 4096) mod 64),
         byte_char (0x80 + (n div 64) mod 64), byte_char (0x80 + n mod 64)])"

definition placeholder :: "nat \<Rightarrow> string" where
  "placeholder codeIndex =
     ''___CODEBLOCK_'' @ rune_string (sint (word_of_nat (65 + codeIndex) :: 32 word)) @ ''___''"

definition markdownCodeBlock :: "string \<Rightarrow> string \<Rightarrow> string" where
  "markdownCodeBlock language body =
     [CHR 0x60, CHR 0x60, CHR 0x60] @ language @ [CHR 0x0A] @ TrimRight_nl body
       @ [CHR 0x0A, CHR 0x60, CHR 0x60, CHR 0x60]"

text \<open>
  The assignment \<open>codeBlockPlaceholders[placeholder] = markdownCodeBlock\<close> on a Go map,
  kept as an association list with one entry for each key.
\<close>

fun map_assign :: "string \<Rightarrow> string \<Rightarrow> (string \<times> string) list \<Rightarrow> (string \<times> string) list" where
  "map_assign k v [] = [(k, v)]"
| "map_assign k v (e # es) = (if fst e = k then (k, v) # es else e # map_assign k v es)"

text \<open>
  The replacement of the code blocks: the text with the placeholders, the map filled so
  far, and \<open>codeIndex\<close> threaded through the matches from left to right.
\<close>

fun extractCodeBlocks ::
  "nat \<Rightarrow> (string \<times> string) list \<Rightarrow> string \<Rightarrow> string \<times> (string \<times> string) list" where
  "extractCodeBlocks codeIndex m [] = ([], m)"
| "extractCodeBlocks codeIndex m (c # cs) =
     (case codeBlockMatch (c # cs) of
        None \<Rightarrow>
          (case extractCodeBlocks codeIndex m cs of (r, m') \<Rightarrow> (c # r, m'))
      | Some (language, body, n) \<Rightarrow>
          (case extractCodeBlocks (Suc codeIndex)
                  (map_assign (placeholder codeIndex) (markdownCodeBlock language body) m)
                  (drop (n - 1) cs) of
             (r, m') \<Rightarrow> (placeholder codeIndex @ r, m')))"

text \<open>Step 3, \<open><blockquote>([\s\S]*?)</blockquote>\<close>: line feeds inside become \<open><br>\<close>.\<close>

definition blockquoteMatch :: "string \<Rightarrow> (string \<times> nat) option" where
  "blockquoteMatch s =
     map_option (\<lambda>(blockquoteContent, n).
         (''<blockquote>'' @ ReplaceAll blockquoteContent [CHR 0x0A] ''<br>'' @ ''</blockquote>'', n))
       (lazyMatch ''<blockquote>'' ''</blockquote>'' s)"

text \<open>
  The last step, \<open><spoiler>([\s\S]*?)</spoiler>\<close> replaced by the template
  \<open><span class="spoiler">$1</span>\<close>.
\<close>

definition spoilerMatch :: "string \<Rightarrow> (string \<times> nat) option" where
  "spoilerMatch s =
     map_option (\<lambda>(spoilerContent, n). (''<span class=\"spoiler\">'' @ spoilerContent @ ''</span>'', n))
       (lazyMatch ''<spoiler>'' ''</spoiler>'' s)"

text \<open>
  The loop \<open>for placeholder, codeBlock := range codeBlockPlaceholders\<close>.  Go leaves the
  iteration order of a map unspecified and its runtime varies it from one loop to the
  next, so the order is an argument: \<open>order\<close> lists the entries of the map as the loop
  meets them (a permutation of its argument).
\<close>

definition reinsertCodeBlocks :: "(string \<times> string) list \<Rightarrow> string \<Rightarrow> string" where
  "reinsertCodeBlocks entries content =
     foldl (\<lambda>content (placeholder, codeBlock). ReplaceAll content placeholder codeBlock)
       content entries"

definition ProcessContent ::
  "((string \<times> string) list \<Rightarrow> (string \<times> string) list) \<Rightarrow> string \<Rightarrow> string" where
  "ProcessContent order content =
     (if content = [] then []
      else
        (let content1 = regexReplaceAll codeMatch content;
             (content2, codeBlockPlaceholders) = extractCodeBlocks 0 [] content1;
             content3 = regexReplaceAll blockquoteMatch content2;
             content4 = ReplaceAll content3 [CHR 0x0A] [CHR 0x20, CHR 0x20, CHR 0x0A];
             content5 = ReplaceAll content4 [CHR 0x20, CHR 0x20, CHR 0x0A, CHR 0x20, CHR 0x20, CHR 0x0A]
                          [CHR 0x20, CHR 0x20, CHR 0x0A, CHR 0x0A];
             content6 = reinsertCodeBlocks (order codeBlockPlaceholders) content5
         in regexReplaceAll spoilerMatch content6))"


subsection \<open>Title extractor (ExtractTitle, RemoveAddressPattern)\<close>

text \<open>
  The pattern \<open>(?m)(\s\s\n)?0x[0-9a-fA-F]+\n?$\<close>.  \<open>\s\<close> is one of tab, line feed, form
  feed, carriage return and space; with the flag \<open>m\<close> the anchor \<open>$\<close> holds at the end
  of the text and before a line feed.  The greedy \<open>+\<close> has to take every hex digit that
  follows \<open>0x\<close> (after fewer, the next byte is a hex digit and \<open>$\<close> fails); the greedy
  \<open>\n?\<close> takes a line feed when \<open>$\<close> holds behind it and leaves it otherwise.
\<close>

definition is_regex_space :: "char \<Rightarrow> bool" where
  "is_regex_space c = (c \<in> set [CHR 0x09, CHR 0x0A, CHR 0x0C, CHR 0x0D, CHR 0x20])"

definition is_hex :: "char \<Rightarrow> bool" where
  "is_hex c = (let n = (of_char c :: nat) in
                 (48 \<le> n \<and> n \<le> 57) \<or> (97 \<le> n \<and> n \<le> 102) \<or> (65 \<le> n \<and> n \<le> 70))"

text \<open>The part \<open>0x[0-9a-fA-F]+\n?$\<close> at the start of \<open>s\<close>: the length of its match.\<close>

definition hexTokenMatch :: "string \<Rightarrow> nat option" where
  "hexTokenMatch s =
     (if prefix ''0x'' s then
        (let digits = takeWhile is_hex (drop 2 s);
             rest = dropWhile is_hex (drop 2 s)
         in if digits = [] then None
            else (case rest of
                    [] \<Rightarrow> Some (2 + length digits)
                  | c # rest' \<Rightarrow>
                      if c = CHR 0x0A then
                        (if rest' = [] \<or> hd rest' = CHR 0x0A then Some (2 + length digits + 1)
                         else Some (2 + length digits))
                      else None))
      else None)"

definition addressMatch :: "string \<Rightarrow> nat option" where
  "addressMatch s =
     (case s of
        a # b # c # s' \<Rightarrow>
          if is_regex_space a \<and> is_regex_space b \<and> c = CHR 0x0A then
            map_option (\<lambda>n. 3 + n) (hexTokenMatch s')
          else hexTokenMatch s
      | _ \<Rightarrow> hexTokenMatch s)"

text \<open>\<open>addressRegex.FindString\<close>: the text of the leftmost match.\<close>

fun FindString_address :: "string \<Rightarrow> string option" where
  "FindString_address [] = None"
| "FindString_address (c # cs) =
     (case addressMatch (c # cs) of
        Some n \<Rightarrow> Some (take n (c # cs))
      | None \<Rightarrow> FindString_address cs)"

definition ExtractTitle :: "string \<Rightarrow> string \<Rightarrow> string" where
  "ExtractTitle content channelID =
     (if content = [] then channelID
      else (case FindString_address content of
              Some match \<Rightarrow> channelID @ '' ['' @ TrimSpace match @ '']''
            | None \<Rightarrow> channelID))"

definition RemoveAddressPattern :: "string \<Rightarrow> string" where
  "RemoveAddressPattern content =
     regexReplaceAll (\<lambda>s. map_option (\<lambda>n. ([], n)) (addressMatch s)) content"

subsection \<open>Front-matter builder (BuildFrontMatter)\<close>

text \<open>
  \<open>time.Time\<close> enters the package only through \<open>Format(time.RFC3339)\<close>.  A time is
  modelled by the fields that layout prints: the calendar date, the clock and the offset of
  the zone in seconds.  The layout \<open>2006-01-02T15:04:05Z07:00\<close> pads the year to four
  digits and the other fields to two, and prints \<open>Z\<close> for the offset zero.
\<close>

record Time =
  year :: int
  month :: nat
  day :: nat
  hour :: nat
  minute :: nat
  second :: nat
  zone_offset :: int

definition appendInt :: "int \<Rightarrow> nat \<Rightarrow> string" where
  "appendInt x width =
     (let digits = dec_nat (nat \<bar>x\<bar>)
      in (if x < 0 then ''-'' else []) @ replicate (width - length digits) (CHR ''0'') @ digits)"

definition Format_RFC3339 :: "Time \<Rightarrow> string" where
  "Format_RFC3339 t =
     appendInt (year t) 4 @ ''-'' @ appendInt (int (month t)) 2 @ ''-''
       @ appendInt (int (day t)) 2 @ ''T'' @ appendInt (int (hour t)) 2 @ '':''
       @ appendInt (int (minute t)) 2 @ '':'' @ appendInt (int (second t)) 2
       @ (if zone_offset t = 0 then ''Z''
          else (let zone = \<bar>zone_offset t\<bar> div 60
                in (if zone_offset t < 0 \<and> zone \<noteq> 0 then ''-'' else ''+'')
                     @ appendInt (zone div 60) 2 @ '':'' @ appendInt (zone mod 60) 2))"

record Post =
  ID :: int64
  Title :: string
  Content :: string
  Date :: Time
  ImageNames :: "string list"

text \<open>The loop over \<open>post.ImageNames\<close>: quoted names, \<open>", "\<close> before all but the first.\<close>

fun writeImageNames :: "nat \<Rightarrow> string list \<Rightarrow> string" where
  "writeImageNames i [] = []"
| "writeImageNames i (imgName # rest) =
     (if i > 0 then '', '' else []) @ ''\"'' @ imgName @ ''\"'' @ writeImageNames (Suc i) rest"

definition BuildFrontMatter :: "Post \<Rightarrow> string" where
  "BuildFrontMatter post =
     ''+++'' @ [CHR 0x0A]
       @ ''title = \"'' @ ReplaceAll (Title post) ''\"'' [CHR 0x5C, CHR 0x22] @ ''\"'' @ [CHR 0x0A]
       @ ''date = '' @ Format_RFC3339 (Date post) @ [CHR 0x0A, CHR 0x0A]
       @ (if length (ImageNames post) > 0 then
            ''[extra]'' @ [CHR 0x0A] @ ''images = ['' @ writeImageNames 0 (ImageNames post)
              @ '']'' @ [CHR 0x0A]
          else [])
       @ ''+++'' @ [CHR 0x0A, CHR 0x0A]"


subsection \<open>The posts directory\<close>

text \<open>
  The file system below \<open>postsDir\<close>: its entries are files and post directories, a post
  directory holds files.  \<open>None\<close> is the state in which \<open>postsDir\<close> itself does not
  exist.  The operations of package \<open>os\<close> fail where the shape of the tree makes them
  fail (a missing parent, a file where a directory is needed and the reverse); failures of
  the device (permissions, a full disk) are outside the model.
\<close>

datatype node = File "byte list" | Dir "(string \<times> byte list) list"

type_synonym tree = "(string \<times> node) list option"

datatype path = Top string | Inside string string

fun assign :: "'k \<Rightarrow> 'v \<Rightarrow> ('k \<times> 'v) list \<Rightarrow> ('k \<times> 'v) list" where
  "assign k v [] = [(k, v)]"
| "assign k v (e # es) = (if fst e = k then (k, v) # es else e # assign k v es)"

definition unlink :: "'k \<Rightarrow> ('k \<times> 'v) list \<Rightarrow> ('k \<times> 'v) list" where
  "unlink k es = filter (\<lambda>e. fst e \<noteq> k) es"

text \<open>\<open>os.MkdirAll(postsDir)\<close> and \<open>os.MkdirAll(filepath.Join(postsDir, name))\<close>.\<close>

definition MkdirAll_posts :: "tree \<Rightarrow> tree" where
  "MkdirAll_posts t = (case t of None \<Rightarrow> Some [] | Some es \<Rightarrow> Some es)"

definition MkdirAll :: "string \<Rightarrow> tree \<Rightarrow> tree option" where
  "MkdirAll name t =
     (case t of
        None \<Rightarrow> Some (Some [(name, Dir [])])
      | Some es \<Rightarrow>
          (case map_of es name of
             None \<Rightarrow> Some (Some (es @ [(name, Dir [])]))
           | Some (Dir files) \<Rightarrow> Some (Some es)
           | Some (File data) \<Rightarrow> None))"

text \<open>\<open>os.WriteFile\<close>: creates or truncates the file; the parent directory has to exist.\<close>

definition WriteFile :: "path \<Rightarrow> byte list \<Rightarrow> tree \<Rightarrow> tree option" where
  "WriteFile p data t =
     (case t of
        None \<Rightarrow> None
      | Some es \<Rightarrow>
          (case p of
             Top name \<Rightarrow>
               (case map_of es name of
                  Some (Dir files) \<Rightarrow> None
                | _ \<Rightarrow> Some (Some (assign name (File data) es)))
           | Inside dir name \<Rightarrow>
               (case map_of es dir of
                  Some (Dir files) \<Rightarrow> Some (Some (assign dir (Dir (assign name data files)) es))
                | _ \<Rightarrow> None)))"

text \<open>\<open>os.RemoveAll\<close> of an entry of \<open>postsDir\<close>; a missing entry is no error.\<close>

definition RemoveAll :: "string \<Rightarrow> tree \<Rightarrow> tree" where
  "RemoveAll name t = (case t of None \<Rightarrow> None | Some es \<Rightarrow> Some (unlink name es))"

text \<open>
  \<open>os.Remove\<close> of an entry of \<open>postsDir\<close> removes a file or an empty directory.
  DeletePost discards its error, so only the tree is returned.
\<close>

definition Remove :: "string \<Rightarrow> tree \<Rightarrow> tree" where
  "Remove name t =
     (case t of
        None \<Rightarrow> None
      | Some es \<Rightarrow>
          (case map_of es name of
             Some (Dir (f # files)) \<Rightarrow> Some es
           | _ \<Rightarrow> Some (unlink name es)))"

text \<open>\<open>os.ReadDir\<close>: the names of the entries, sorted by name.\<close>

datatype 'a read_result = NotExist | NotDir | Entries 'a

definition ReadDir_posts :: "tree \<Rightarrow> string list option" where
  "ReadDir_posts t = map_option (\<lambda>es. map fst (sort_by_name es)) t"

definition ReadDir :: "string \<Rightarrow> tree \<Rightarrow> string list read_result" where
  "ReadDir name t =
     (case t of
        None \<Rightarrow> NotExist
      | Some es \<Rightarrow>
          (case map_of es name of
             None \<Rightarrow> NotExist
           | Some (File data) \<Rightarrow> NotDir
           | Some (Dir files) \<Rightarrow> Entries (map fst (sort_by_name files))))"

subsection \<open>Post lifecycle service (service.go)\<close>

text \<open>
  The service with what it is configured with.  Package \<open>git\<close> is a collaborator:
  whether \<open>Add\<close> and \<open>CommitAndPush\<close> return an error is given by \<open>addOk\<close> and
  \<open>commitOk\<close>, and the calls made are logged in the state.  \<open>mapOrder\<close> is the iteration
  order of the map in ProcessContent.  \<open>joinPath\<close> is \<open>filepath.Join\<close> of the standard
  library, applied to the list of its arguments (it drops empty elements, joins the others
  with the separator and cleans the result); the service takes it as given.
\<close>

record Service =
  relPostsDir :: string
  channelID :: string
  addOk :: "string \<Rightarrow> bool"
  commitOk :: "string \<Rightarrow> bool"
  mapOrder :: "(string \<times> string) list \<Rightarrow> (string \<times> string) list"
  joinPath :: "string list \<Rightarrow> string"

datatype git_call = GitAdd string | GitRemove string | GitCommitAndPush string

record state =
  posts :: tree
  git :: "git_call list"

datatype error =
    FailedCreatePostDir | FailedWritePost | FailedAddPost | FailedWriteImage | FailedAddImage
  | FailedFindEditable | FailedGetImageNames | InvalidPostID string | FailedRemovePostDir
  | FailedCommitAndPush | FailedReadPostsDir | FailedReadPostDir

text \<open>
  The path that is staged for a target: \<open>filepath.Join(relPostsDir, filename)\<close>, where
  the filename of a target inside a post directory is \<open>filepath.Join(name, "index.md")\<close>.
\<close>

definition path_under :: "Service \<Rightarrow> path \<Rightarrow> string" where
  "path_under sv p =
     (case p of
        Top name \<Rightarrow> joinPath sv [relPostsDir sv, name]
      | Inside dir name \<Rightarrow> joinPath sv [relPostsDir sv, joinPath sv [dir, name]])"

text \<open>getPostImageNames.\<close>

definition getPostImageNames :: "state \<Rightarrow> int64 \<Rightarrow> error + string list" where
  "getPostImageNames st postID =
     (case ReadDir (FormatInt postID) (posts st) of
        NotExist \<Rightarrow> Inr []
      | NotDir \<Rightarrow> Inl FailedReadPostDir
      | Entries names \<Rightarrow> Inr (sort_names (filter (prefix ''image_'') names)))"

text \<open>getEditablePostID: the scan of the directory, then the search for the closest id.\<close>

fun scanPostIDs :: "string list \<Rightarrow> int64 list" where
  "scanPostIDs [] = []"
| "scanPostIDs (name # names) =
     (if Contains name ''index'' then scanPostIDs names
      else
        (case ParseInt (if Contains name ''.'' then hd (Split name (CHR ''.'')) else name) of
           None \<Rightarrow> scanPostIDs names
         | Some pid \<Rightarrow> pid # scanPostIDs names))"

fun closestLoop :: "int64 \<Rightarrow> int64 \<Rightarrow> int64 \<Rightarrow> int64 list \<Rightarrow> int64" where
  "closestLoop postID closestID minDiff [] = closestID"
| "closestLoop postID closestID minDiff (pid # ids) =
     (let diff = abs64 (postID - pid)
      in if sint diff < sint minDiff then closestLoop postID pid diff ids
         else closestLoop postID closestID minDiff ids)"

definition closestID :: "int64 \<Rightarrow> int64 list \<Rightarrow> int64" where
  "closestID postID postIDs =
     (case postIDs of
        [] \<Rightarrow> postID
      | first # others \<Rightarrow> closestLoop postID first (abs64 (postID - first)) others)"

definition getEditablePostID :: "state \<Rightarrow> int64 \<Rightarrow> error + int64" where
  "getEditablePostID st postID =
     (case ReadDir_posts (posts st) of
        None \<Rightarrow> Inl FailedReadPostsDir
      | Some names \<Rightarrow> Inr (closestID postID (scanPostIDs names)))"


text \<open>
  The operations return the error (\<open>None\<close> for \<open>nil\<close>) and the state they leave behind;
  a call that returns an error keeps what it had done before.
\<close>

definition git_call :: "git_call \<Rightarrow> state \<Rightarrow> state" where
  "git_call c st = st\<lparr>git := git st @ [c]\<rparr>"

text \<open>The names \<open>image_<i>.<format>\<close> of CreatePost, \<open>i\<close> counting from 0.\<close>

fun createImageNames :: "nat \<Rightarrow> byte list list \<Rightarrow> string list" where
  "createImageNames i [] = []"
| "createImageNames i (mediaFile # rest) =
     (''image_'' @ dec_nat i @ ''.'' @ getImageFormat mediaFile) # createImageNames (Suc i) rest"

text \<open>The loop of CreatePost that writes and stages the media files.\<close>

fun writeMedia :: "Service \<Rightarrow> int64 \<Rightarrow> (string \<times> byte list) list \<Rightarrow> state \<Rightarrow> error option \<times> state" where
  "writeMedia sv postID [] st = (None, st)"
| "writeMedia sv postID ((imageFilename, mediaFile) # rest) st =
     (case WriteFile (Inside (FormatInt postID) imageFilename) mediaFile (posts st) of
        None \<Rightarrow> (Some FailedWriteImage, st)
      | Some t \<Rightarrow>
          (let relImagePath = joinPath sv [relPostsDir sv, FormatInt postID, imageFilename];
               st1 = git_call (GitAdd relImagePath) (st\<lparr>posts := t\<rparr>)
           in if \<not> addOk sv relImagePath then (Some FailedAddImage, st1)
              else writeMedia sv postID rest st1))"

text \<open>
  What CreatePost and EditPost share: the markup file is rendered, written to \<open>target\<close>
  and staged.
\<close>

definition renderPost :: "Service \<Rightarrow> Post \<Rightarrow> Post \<times> string" where
  "renderPost sv post =
     (let processedContent = ProcessContent (mapOrder sv) (Content post);
          post1 = (if Title post = [] then post\<lparr>Title := ExtractTitle (Content post) (channelID sv)\<rparr>
                   else post);
          processedContent1 = RemoveAddressPattern processedContent
      in (post1, BuildFrontMatter post1 @ processedContent1 @ [CHR 0x0A]))"

definition writePost :: "Service \<Rightarrow> path \<Rightarrow> string \<Rightarrow> state \<Rightarrow> error option \<times> state" where
  "writePost sv target postContent st =
     (case WriteFile target (bytes_of postContent) (posts st) of
        None \<Rightarrow> (Some FailedWritePost, st)
      | Some t \<Rightarrow>
          (let relPostPath = path_under sv target;
               st1 = git_call (GitAdd relPostPath) (st\<lparr>posts := t\<rparr>)
           in if \<not> addOk sv relPostPath then (Some FailedAddPost, st1) else (None, st1)))"

definition CreatePost :: "Service \<Rightarrow> Post \<Rightarrow> byte list list \<Rightarrow> state \<Rightarrow> error option \<times> state" where
  "CreatePost sv post0 mediaFiles st =
     (let post = post0\<lparr>ImageNames := createImageNames 0 mediaFiles\<rparr>;
          name = FormatInt (ID post)
      in case (if length (ImageNames post) > 0
               then map_option (\<lambda>t. (Inside name ''index.md'', t)) (MkdirAll name (posts st))
               else Some (Top (name @ ''.md''), MkdirAll_posts (posts st))) of
           None \<Rightarrow> (Some FailedCreatePostDir, st)
         | Some (target, t) \<Rightarrow>
             (case writePost sv target (snd (renderPost sv post)) (st\<lparr>posts := t\<rparr>) of
                (Some e, st1) \<Rightarrow> (Some e, st1)
              | (None, st1) \<Rightarrow> writeMedia sv (ID post) (zip (ImageNames post) mediaFiles) st1))"

text \<open>
  EditPost.  \<open>mediaFile\<close> is \<open>None\<close> for the \<open>nil\<close> slice.  The image names that go into
  the front matter when there is content:
\<close>

definition editImageNames :: "Post \<Rightarrow> string list \<Rightarrow> string list" where
  "editImageNames post imageNames =
     (if length imageNames > 0 then
        (if length (ImageNames post) > 0 then
           (let parts = Split (hd (ImageNames post)) (CHR ''.'');
                format = (if length parts > 1 then last parts else ''jpg'')
            in map (\<lambda>i. ''image_'' @ dec_nat i @ ''.'' @ format) [0..<length imageNames])
         else imageNames)
      else ImageNames post)"

definition editContent :: "Service \<Rightarrow> Post \<Rightarrow> int64 \<Rightarrow> string list \<Rightarrow> state \<Rightarrow> error option \<times> state" where
  "editContent sv post0 editablePostID imageNames st =
     (let post = post0\<lparr>ID := editablePostID, ImageNames := editImageNames post0 imageNames\<rparr>;
          name = FormatInt editablePostID
      in case (if length imageNames > 0
               then map_option (\<lambda>t. (Inside name ''index.md'', t)) (MkdirAll name (posts st))
               else Some (Top (name @ ''.md''), posts st)) of
           None \<Rightarrow> (Some FailedCreatePostDir, st)
         | Some (target, t) \<Rightarrow> writePost sv target (snd (renderPost sv post)) (st\<lparr>posts := t\<rparr>))"

definition editMedia :: "Service \<Rightarrow> int64 \<Rightarrow> int64 \<Rightarrow> byte list \<Rightarrow> state \<Rightarrow> error option \<times> state" where
  "editMedia sv originalPostID editablePostID mediaFile st =
     (let index = originalPostID - editablePostID;
          imageFilename = ''image_'' @ FormatInt index @ ''.'' @ getImageFormat mediaFile;
          name = FormatInt editablePostID;
          relImagePath = joinPath sv [relPostsDir sv, name, imageFilename]
      in case MkdirAll name (posts st) of
           None \<Rightarrow> (Some FailedCreatePostDir, st)
         | Some t \<Rightarrow>
             (case WriteFile (Inside name imageFilename) mediaFile t of
                None \<Rightarrow> (Some FailedWriteImage, st\<lparr>posts := t\<rparr>)
              | Some t1 \<Rightarrow>
                  (let st1 = git_call (GitAdd relImagePath) (st\<lparr>posts := t1\<rparr>)
                   in if \<not> addOk sv relImagePath then (Some FailedAddImage, st1)
                      else (None, st1))))"

definition EditPost :: "Service \<Rightarrow> Post \<Rightarrow> byte list option \<Rightarrow> state \<Rightarrow> error option \<times> state" where
  "EditPost sv post mediaFile st =
     (let originalPostID = ID post in
      case getEditablePostID st (ID post) of
        Inl e \<Rightarrow> (Some FailedFindEditable, st)
      | Inr editablePostID \<Rightarrow>
          (case getPostImageNames st editablePostID of
             Inl e \<Rightarrow> (Some FailedGetImageNames, st)
           | Inr imageNames \<Rightarrow>
               (case (if Content post \<noteq> []
                      then editContent sv post editablePostID imageNames st
                      else (None, st)) of
                  (Some e, st1) \<Rightarrow> (Some e, st1)
                | (None, st1) \<Rightarrow>
                    (case mediaFile of
                       None \<Rightarrow> (None, st1)
                     | Some m \<Rightarrow> editMedia sv originalPostID editablePostID m st1))))"

text \<open>DeletePost: the loop over the entries of the batch, then the commit.\<close>

definition deleteOne :: "Service \<Rightarrow> int64 \<Rightarrow> state \<Rightarrow> state" where
  "deleteOne sv postID st =
     (case getPostImageNames st postID of
        Inl e \<Rightarrow> st
      | Inr imageNames \<Rightarrow>
          if length imageNames > 0 then
            (let relPostDir = joinPath sv [relPostsDir sv, FormatInt postID];
                 st1 = st\<lparr>posts := RemoveAll (FormatInt postID) (posts st)\<rparr>;
                 st2 = git_call (GitRemove (joinPath sv [relPostDir, ''index.md''])) st1
             in foldl (\<lambda>s imageName. git_call (GitRemove (joinPath sv [relPostDir, imageName])) s)
                  st2 imageNames)
          else
            (let filename = FormatInt postID @ ''.md'';
                 st1 = st\<lparr>posts := Remove filename (posts st)\<rparr>
             in git_call (GitRemove (joinPath sv [relPostsDir sv, filename])) st1))"

fun deleteLoop :: "Service \<Rightarrow> string list \<Rightarrow> state \<Rightarrow> error option \<times> state" where
  "deleteLoop sv [] st = (None, st)"
| "deleteLoop sv (idStr0 # idList) st =
     (let idStr = TrimSpace idStr0 in
      if idStr = [] then deleteLoop sv idList st
      else (case ParseInt idStr of
              None \<Rightarrow> (Some (InvalidPostID idStr), st)
            | Some postID \<Rightarrow> deleteLoop sv idList (deleteOne sv postID st)))"

definition DeletePost :: "Service \<Rightarrow> string \<Rightarrow> state \<Rightarrow> error option \<times> state" where
  "DeletePost sv ids st =
     (case deleteLoop sv (Split ids (CHR '','')) st of
        (Some e, st1) \<Rightarrow> (Some e, st1)
      | (None, st1) \<Rightarrow>
          (let commitMsg = ''Delete post(s): '' @ ids;
               st2 = git_call (GitCommitAndPush commitMsg) st1
           in if \<not> commitOk sv commitMsg then (Some FailedCommitAndPush, st2)
              else (None, st2)))"


subsection \<open>Shapes of a post on disk\<close>

text \<open>
  A post is a loose file \<open><name>.md\<close> or a directory \<open><name>/\<close>.  The predicates read
  the tree; \<open>one_shape\<close> says that no name has both.
\<close>

definition is_file :: "tree \<Rightarrow> string \<Rightarrow> bool" where
  "is_file t name =
     (case t of None \<Rightarrow> False
      | Some es \<Rightarrow> (case map_of es name of Some (File data) \<Rightarrow> True | _ \<Rightarrow> False))"

definition is_dir :: "tree \<Rightarrow> string \<Rightarrow> bool" where
  "is_dir t name =
     (case t of None \<Rightarrow> False
      | Some es \<Rightarrow> (case map_of es name of Some (Dir files) \<Rightarrow> True | _ \<Rightarrow> False))"

definition both_shapes :: "tree \<Rightarrow> string \<Rightarrow> bool" where
  "both_shapes t name = (is_file t (name @ ''.md'') \<and> is_dir t name)"

definition one_shape :: "tree \<Rightarrow> bool" where
  "one_shape t = (\<forall>name. \<not> both_shapes t name)"

text \<open>The content of a file inside a post directory, when there is one.\<close>

definition file_in :: "tree \<Rightarrow> string \<Rightarrow> string \<Rightarrow> byte list option" where
  "file_in t dir name =
     (case t of None \<Rightarrow> None
      | Some es \<Rightarrow> (case map_of es dir of Some (Dir files) \<Rightarrow> map_of files name | _ \<Rightarrow> None))"

subsection \<open>A concrete service and concrete inputs, used to run the operations\<close>

text \<open>
  On elements that are clean and not empty, as all elements of the example are,
  \<open>filepath.Join\<close> puts the separator between them.
\<close>

fun join_clean :: "string list \<Rightarrow> string" where
  "join_clean [] = []"
| "join_clean [a] = a"
| "join_clean (a # b # rest) = a @ ''/'' @ join_clean (b # rest)"

definition example_service :: Service where
  "example_service =
     \<lparr>relPostsDir = ''content/posts'', channelID = ''@testchannel'',
      addOk = (\<lambda>p. True), commitOk = (\<lambda>m. True), mapOrder = (\<lambda>entries. entries),
      joinPath = join_clean\<rparr>"

definition example_time :: Time where
  "example_time =
     \<lparr>year = 2024, month = 1, day = 15, hour = 10, minute = 30, second = 0, zone_offset = 0\<rparr>"

definition png_bytes :: "byte list" where
  "png_bytes = [0x89, 0x50, 0x4E, 0x47, 0x0D, 0x0A, 0x1A, 0x0A]"

definition jpeg_bytes :: "byte list" where
  "jpeg_bytes = [0xFF, 0xD8, 0xFF, 0xE0, 0x00, 0x10, 0x4A, 0x46, 0x49, 0x46]"

definition example_post :: "int64 \<Rightarrow> string \<Rightarrow> Post" where
  "example_post pid content =
     \<lparr>ID = pid, Title = ''@testchannel'', Content = content, Date = example_time, ImageNames = []\<rparr>"

subsection \<open>Vocabulary of the properties\<close>

text \<open>
  A residual address token: the string ends with \<open>0x\<close> followed by one or more hex
  digits (read from the end: the hex digits, then \<open>x\<close>, then \<open>0\<close>).
\<close>

definition ends_with_address :: "string \<Rightarrow> bool" where
  "ends_with_address s =
     (takeWhile is_hex (rev s) \<noteq> [] \<and> prefix ''x0'' (dropWhile is_hex (rev s)))"


section \<open>Properties\<close>

subsection \<open>Image classifier\<close>

lemma prefix3_nth:
  "prefix [a, b, c] d \<longleftrightarrow> 3 \<le> length d \<and> d ! 0 = a \<and> d ! 1 = b \<and> d ! 2 = c"
  by (cases d; simp; cases "tl d"; simp; cases "tl (tl d)"; auto)

lemma prefix4_nth:
  "prefix [a, b, c, e] d \<longleftrightarrow>
     4 \<le> length d \<and> d ! 0 = a \<and> d ! 1 = b \<and> d ! 2 = c \<and> d ! 3 = e"
proof (cases d)
  case Nil
  then show ?thesis by simp
next
  case (Cons x d')
  then show ?thesis
    using prefix3_nth [of b c e d'] by (auto simp: nth_Cons')
qed

text \<open>
  C3, as stated, fails: the classifier recognises PNG only in a buffer of at least 8 bytes
  and GIF only in one of at least 6.  A buffer of exactly the four PNG magic bytes is
  classified as \<open>jpg\<close>.
\<close>

theorem getImageFormat_png_magic_only:
  "prefix [0x89, 0x50, 0x4E, 0x47] [0x89, 0x50, 0x4E, 0x47 :: byte]
     \<and> getImageFormat [0x89, 0x50, 0x4E, 0x47] = ''jpg''"
  by (simp add: getImageFormat_def)

text \<open>
  C3, amended: a buffer that starts with FF D8 FF is \<open>jpg\<close>; one of at least 8 bytes that
  starts with 89 50 4E 47 is \<open>png\<close>; one of at least 6 bytes that starts with 47 49 46 is
  \<open>gif\<close>; one that starts with RIFF and has WEBP at offset 8 is \<open>webp\<close>; every buffer
  shorter than 4 bytes and every buffer that is none of the three above is \<open>jpg\<close>; the
  result is always one of the four tokens.
\<close>

theorem getImageFormat_classifies:
  "(prefix [0xFF, 0xD8, 0xFF] d \<longrightarrow> getImageFormat d = ''jpg'')
 \<and> (prefix [0x89, 0x50, 0x4E, 0x47] d \<and> 8 \<le> length d \<longrightarrow> getImageFormat d = ''png'')
 \<and> (prefix [0x47, 0x49, 0x46] d \<and> 6 \<le> length d \<longrightarrow> getImageFormat d = ''gif'')
 \<and> (prefix [0x52, 0x49, 0x46, 0x46] d \<and> take 4 (drop 8 d) = [0x57, 0x45, 0x42, 0x50]
        \<longrightarrow> getImageFormat d = ''webp'')
 \<and> (length d < 4 \<longrightarrow> getImageFormat d = ''jpg'')
 \<and> (\<not> (prefix [0x89, 0x50, 0x4E, 0x47] d \<and> 8 \<le> length d)
      \<and> \<not> (prefix [0x47, 0x49, 0x46] d \<and> 6 \<le> length d)
      \<and> \<not> (prefix [0x52, 0x49, 0x46, 0x46] d \<and> take 4 (drop 8 d) = [0x57, 0x45, 0x42, 0x50])
        \<longrightarrow> getImageFormat d = ''jpg'')
 \<and> getImageFormat d \<in> {''jpg'', ''png'', ''gif'', ''webp''}"
proof -
  have len: "12 \<le> length d" if a: "take 4 (drop 8 d) = [0x57, 0x45, 0x42, 0x50]"
  proof -
    have "length (take 4 (drop 8 d)) = 4" by (simp add: a)
    then show ?thesis by simp
  qed
  show ?thesis
    using len by (auto simp: getImageFormat_def prefix3_nth prefix4_nth)
qed

theorem getImageFormat_classifies_witness:
  "getImageFormat [0xFF, 0xD8, 0xFF, 0xE0, 0x00, 0x10, 0x4A, 0x46, 0x49, 0x46] = ''jpg''
 \<and> getImageFormat [0x89, 0x50, 0x4E, 0x47, 0x0D, 0x0A, 0x1A, 0x0A] = ''png''
 \<and> getImageFormat [0x47, 0x49, 0x46, 0x38, 0x39, 0x61] = ''gif''
 \<and> getImageFormat [0x52, 0x49, 0x46, 0x46, 0, 0, 0, 0, 0x57, 0x45, 0x42, 0x50] = ''webp''
 \<and> getImageFormat [] = ''jpg''
 \<and> getImageFormat [0x00, 0x01, 0x02, 0x03] = ''jpg''"
  using getImageFormat_classifies [of "[0xFF, 0xD8, 0xFF, 0xE0, 0x00, 0x10, 0x4A, 0x46, 0x49, 0x46]"]
        getImageFormat_classifies [of "[0x89, 0x50, 0x4E, 0x47, 0x0D, 0x0A, 0x1A, 0x0A]"]
        getImageFormat_classifies [of "[0x47, 0x49, 0x46, 0x38, 0x39, 0x61]"]
        getImageFormat_classifies [of "[0x52, 0x49, 0x46, 0x46, 0, 0, 0, 0, 0x57, 0x45, 0x42, 0x50]"]
        getImageFormat_classifies [of "[]"]
        getImageFormat_classifies [of "[0x00, 0x01, 0x02, 0x03]"]
  by simp

subsection \<open>Edit-target resolution\<close>

lemma sint_abs64_diff:
  fixes a b :: int64
  assumes "\<bar>sint a - sint b\<bar> < 2 ^ 63"
  shows "sint (abs64 (a - b)) = \<bar>sint a - sint b\<bar>"
proof -
  have d: "sint (a - b) = sint a - sint b"
    using assms by (simp add: sint_word_ariths signed_take_bit_int_eq_self)
  show ?thesis
  proof (cases "sint (a - b) < 0")
    case True
    have "sint (- (a - b)) = - sint (a - b)"
      using assms d by (simp add: sint_word_ariths signed_take_bit_int_eq_self)
    with True d show ?thesis by (simp add: abs64_def)
  next
    case False
    with d show ?thesis by (simp add: abs64_def)
  qed
qed

lemma closestLoop_min:
  assumes "\<forall>i \<in> set (c # ids). \<bar>sint req - sint i\<bar> < 2 ^ 63"
  shows "closestLoop req c (abs64 (req - c)) ids \<in> set (c # ids)
     \<and> (\<forall>i \<in> set (c # ids).
           \<bar>sint req - sint (closestLoop req c (abs64 (req - c)) ids)\<bar> \<le> \<bar>sint req - sint i\<bar>)"
  using assms
proof (induction ids arbitrary: c)
  case Nil
  then show ?case by simp
next
  case (Cons x ids)
  have dx: "sint (abs64 (req - x)) = \<bar>sint req - sint x\<bar>"
    and dc: "sint (abs64 (req - c)) = \<bar>sint req - sint c\<bar>"
    using Cons.prems by (simp_all add: sint_abs64_diff)
  show ?case
  proof (cases "\<bar>sint req - sint x\<bar> < \<bar>sint req - sint c\<bar>")
    case True
    have "\<forall>i \<in> set (x # ids). \<bar>sint req - sint i\<bar> < 2 ^ 63" using Cons.prems by simp
    from Cons.IH [OF this] True dx dc show ?thesis by (auto simp: Let_def)
  next
    case False
    have "\<forall>i \<in> set (c # ids). \<bar>sint req - sint i\<bar> < 2 ^ 63" using Cons.prems by simp
    from Cons.IH [OF this] False dx dc show ?thesis by (auto simp: Let_def)
  qed
qed

lemma scanPostIDs_skips_index:
  "scanPostIDs names = scanPostIDs (filter (\<lambda>n. \<not> Contains n ''index'') names)"
  by (induction names) (simp_all split: option.splits)

lemmas resolve_eval =
  getEditablePostID_def ReadDir_posts_def sort_by_name_def closestID_def ParseInt_def
  ParseUint_def is_digit_def digit_val_def abs64_def

text \<open>
  C2, as stated, fails for identifiers whose difference leaves the range of \<open>int64\<close>: the
  subtraction in \<open>abs(postID - id)\<close> wraps.  With the posts \<open>10.md\<close> and
  \<open>-9223372036854775803.md\<close> on disk, the request 9223372036854775807 resolves to
  \<open>-9223372036854775803\<close> (wrapped difference 6), although 10 is nearer.
\<close>

theorem getEditablePostID_wraps:
  "getEditablePostID
     \<lparr>posts = Some [(''10.md'', File []), (''-9223372036854775803.md'', File [])], git = []\<rparr>
     9223372036854775807 = Inr (- 9223372036854775803)
   \<and> \<bar>sint (9223372036854775807 :: int64) - sint (10 :: int64)\<bar>
       < \<bar>sint (9223372036854775807 :: int64) - sint (- 9223372036854775803 :: int64)\<bar>"
  by (simp add: resolve_eval)

text \<open>
  C2, amended: when the posts directory can be read and no difference between the
  requested identifier and an identifier on disk overflows \<open>int64\<close> (as for all
  non-negative identifiers), the resolution returns an identifier found on disk at the
  least absolute difference from the requested one; entries whose name contains
  \<open>index\<close> are skipped; when no identifier is found on disk, it returns the requested
  identifier and no error.  The identifiers on disk are those of \<open>scanPostIDs\<close> on the
  sorted entry names.
\<close>

theorem getEditablePostID_closest:
  assumes "posts st = Some es"
    and "ids = scanPostIDs (map fst (sort_by_name es))"
    and "\<forall>i \<in> set ids. \<bar>sint req - sint i\<bar> < 2 ^ 63"
  shows "(\<exists>r. getEditablePostID st req = Inr r
            \<and> (ids = [] \<longrightarrow> r = req)
            \<and> (ids \<noteq> [] \<longrightarrow> r \<in> set ids
                  \<and> (\<forall>i \<in> set ids. \<bar>sint req - sint r\<bar> \<le> \<bar>sint req - sint i\<bar>)))
     \<and> ids = scanPostIDs (filter (\<lambda>n. \<not> Contains n ''index'') (map fst (sort_by_name es)))"
proof (cases ids)
  case Nil
  then show ?thesis
    using assms scanPostIDs_skips_index [of "map fst (sort_by_name es)"]
    by (simp add: getEditablePostID_def ReadDir_posts_def closestID_def)
next
  case (Cons c rest)
  have "\<forall>i \<in> set (c # rest). \<bar>sint req - sint i\<bar> < 2 ^ 63"
    using assms(3) Cons by simp
  from closestLoop_min [OF this] Cons assms(1,2)
    scanPostIDs_skips_index [of "map fst (sort_by_name es)"]
  show ?thesis
    by (simp add: getEditablePostID_def ReadDir_posts_def closestID_def)
qed

theorem getEditablePostID_closest_witness:
  "getEditablePostID
     \<lparr>posts = Some [(''100.md'', File []), (''105.md'', File []), (''110.md'', File [])],
      git = []\<rparr> 103 = Inr 105
   \<and> getEditablePostID
     \<lparr>posts = Some [(''100.md'', File []), (''105.md'', File []), (''110.md'', File [])],
      git = []\<rparr> 107 = Inr 105
   \<and> getEditablePostID \<lparr>posts = Some [(''_index.md'', File [])], git = []\<rparr> 42 = Inr 42"
  using getEditablePostID_closest
          [of "\<lparr>posts = Some [(''100.md'', File []), (''105.md'', File []), (''110.md'', File [])],
                git = []\<rparr>"
              "[(''100.md'', File []), (''105.md'', File []), (''110.md'', File [])]"
              "[100, 105, 110]" 103]
        getEditablePostID_closest
          [of "\<lparr>posts = Some [(''100.md'', File []), (''105.md'', File []), (''110.md'', File [])],
                git = []\<rparr>"
              "[(''100.md'', File []), (''105.md'', File []), (''110.md'', File [])]"
              "[100, 105, 110]" 107]
        getEditablePostID_closest
          [of "\<lparr>posts = Some [(''_index.md'', File [])], git = []\<rparr>"
              "[(''_index.md'', File [])]" "[]" 42]
  by (simp add: resolve_eval)

subsection \<open>The posts directory and the operations on it\<close>

lemma map_of_assign: "map_of (assign k v es) = (map_of es)(k \<mapsto> v)"
  by (induction es) (auto simp: fun_eq_iff)

lemma map_of_unlink: "map_of (unlink k es) = (map_of es)(k := None)"
  by (induction es) (auto simp: unlink_def fun_eq_iff)

lemma deleteLoop_append:
  "deleteLoop sv pre st = (None, st1) \<Longrightarrow> deleteLoop sv (pre @ l) st = deleteLoop sv l st1"
  by (induction pre arbitrary: st) (auto simp: Let_def split: option.splits if_splits)

lemma deleteLoop_filter:
  "deleteLoop sv idList st = deleteLoop sv (filter (\<lambda>e. TrimSpace e \<noteq> []) idList) st"
  by (induction idList arbitrary: st) (auto simp: Let_def split: option.splits)

lemma is_file_RemoveAll: "is_file (RemoveAll n t) x \<Longrightarrow> is_file t x"
  by (auto simp: is_file_def RemoveAll_def map_of_unlink split: option.splits node.splits if_splits)
lemma is_dir_RemoveAll: "is_dir (RemoveAll n t) x \<Longrightarrow> is_dir t x"
  by (auto simp: is_dir_def RemoveAll_def map_of_unlink split: option.splits node.splits if_splits)
lemma is_file_Remove: "is_file (Remove n t) x \<Longrightarrow> is_file t x"
  by (auto simp: is_file_def Remove_def map_of_unlink split: option.splits node.splits if_splits list.splits)
lemma is_dir_Remove: "is_dir (Remove n t) x \<Longrightarrow> is_dir t x"
  by (auto simp: is_dir_def Remove_def map_of_unlink split: option.splits node.splits if_splits list.splits)

lemma posts_git_call [simp]: "posts (git_call c st) = posts st"
  by (simp add: git_call_def)

lemma posts_git_fold [simp]:
  "posts (foldl (\<lambda>s n. git_call (f n) s) st ns) = posts st"
  by (induction ns arbitrary: st) simp_all

lemma deleteOne_shapes:
  "(is_file (posts (deleteOne sv pid st)) x \<longrightarrow> is_file (posts st) x)
 \<and> (is_dir (posts (deleteOne sv pid st)) x \<longrightarrow> is_dir (posts st) x)"
  by (auto simp: deleteOne_def Let_def split: sum.splits
      dest: is_file_RemoveAll is_dir_RemoveAll is_file_Remove is_dir_Remove)

lemma deleteLoop_shapes:
  "(is_file (posts (snd (deleteLoop sv l st))) x \<longrightarrow> is_file (posts st) x)
 \<and> (is_dir (posts (snd (deleteLoop sv l st))) x \<longrightarrow> is_dir (posts st) x)"
proof (induction l arbitrary: st)
  case Nil
  then show ?case by simp
next
  case (Cons a l)
  show ?case
    using Cons.IH [of st] Cons.IH [of "deleteOne sv (the (ParseInt (TrimSpace a))) st"]
      deleteOne_shapes [of sv "the (ParseInt (TrimSpace a))" st x]
    by (auto simp: Let_def split: option.splits)
qed

lemma DeletePost_shapes:
  "(is_file (posts (snd (DeletePost sv ids st))) x \<longrightarrow> is_file (posts st) x)
 \<and> (is_dir (posts (snd (DeletePost sv ids st))) x \<longrightarrow> is_dir (posts st) x)"
  using deleteLoop_shapes [of sv "Split ids (CHR '','')" st x]
  by (auto simp: DeletePost_def Let_def split: prod.splits option.splits)

lemma DeletePost_one_shape: "one_shape (posts st) \<Longrightarrow> one_shape (posts (snd (DeletePost sv ids st)))"
  using DeletePost_shapes [of sv ids st] by (auto simp: one_shape_def both_shapes_def)


lemma WriteFile_Inside_shapes:
  "WriteFile (Inside d n) data t = Some t' \<Longrightarrow>
     is_file t' x = is_file t x \<and> is_dir t' x = is_dir t x"
  by (auto simp: WriteFile_def is_file_def is_dir_def map_of_assign
           split: option.splits node.splits if_splits)

lemma WriteFile_Top_shapes:
  "WriteFile (Top n) data t = Some t' \<Longrightarrow>
     is_file t' x = (is_file t x \<or> x = n) \<and> is_dir t' x = is_dir t x"
  by (auto simp: WriteFile_def is_file_def is_dir_def map_of_assign
           split: option.splits node.splits if_splits)

lemma MkdirAll_shapes:
  "MkdirAll n t = Some t' \<Longrightarrow>
     is_file t' x = is_file t x \<and> is_dir t' x = (is_dir t x \<or> x = n)"
  by (auto simp: MkdirAll_def is_file_def is_dir_def map_add_def
           split: option.splits node.splits if_splits)

lemma MkdirAll_posts_shapes:
  "is_file (MkdirAll_posts t) x = is_file t x \<and> is_dir (MkdirAll_posts t) x = is_dir t x"
  by (auto simp: MkdirAll_posts_def is_file_def is_dir_def split: option.splits)

lemma writePost_posts:
  "posts (snd (writePost sv target c st)) =
     (case WriteFile target (bytes_of c) (posts st) of None \<Rightarrow> posts st | Some t \<Rightarrow> t)"
  by (simp add: writePost_def Let_def split: option.splits)

lemma writePost_ok:
  "writePost sv target c st = (None, st1) \<Longrightarrow> WriteFile target (bytes_of c) (posts st) = Some (posts st1)"
  by (auto simp: writePost_def Let_def split: option.splits if_splits)

lemma writeMedia_shapes:
  "is_file (posts (snd (writeMedia sv pid ms st))) x = is_file (posts st) x
 \<and> is_dir (posts (snd (writeMedia sv pid ms st))) x = is_dir (posts st) x"
proof (induction ms arbitrary: st)
  case Nil
  then show ?case by simp
next
  case (Cons a ms)
  obtain n m where a: "a = (n, m)" by (cases a)
  show ?case
  proof (cases "WriteFile (Inside (FormatInt pid) n) m (posts st)")
    case None
    then show ?thesis by (simp add: a)
  next
    case (Some t)
    from WriteFile_Inside_shapes [OF Some, of x]
      Cons.IH [of "git_call (GitAdd (joinPath sv [relPostsDir sv, FormatInt pid, n])) (st\<lparr>posts := t\<rparr>)"]
    show ?thesis by (simp add: a Some Let_def)
  qed
qed


lemma createImageNames_Nil [simp]: "createImageNames i ms = [] \<longleftrightarrow> ms = []"
  by (cases ms) simp_all

lemma writePost_shapes_Top:
  "(is_file (posts (snd (writePost sv (Top n) c st))) x \<longrightarrow> is_file (posts st) x \<or> x = n)
 \<and> (is_dir (posts (snd (writePost sv (Top n) c st))) x \<longrightarrow> is_dir (posts st) x)"
  using WriteFile_Top_shapes [of n "bytes_of c" "posts st" _ x]
  by (auto simp: writePost_posts split: option.splits)

lemma writePost_shapes_Inside:
  "is_file (posts (snd (writePost sv (Inside d n) c st))) x = is_file (posts st) x
 \<and> is_dir (posts (snd (writePost sv (Inside d n) c st))) x = is_dir (posts st) x"
  using WriteFile_Inside_shapes [of d n "bytes_of c" "posts st" _ x]
  by (auto simp: writePost_posts split: option.splits)

lemma CreatePost_shapes:
  "(is_file (posts (snd (CreatePost sv post ms st))) x \<longrightarrow>
      is_file (posts st) x \<or> (ms = [] \<and> x = FormatInt (ID post) @ ''.md''))
 \<and> (is_dir (posts (snd (CreatePost sv post ms st))) x \<longrightarrow>
      is_dir (posts st) x \<or> (ms \<noteq> [] \<and> x = FormatInt (ID post)))"
proof (cases "ms = []")
  case True
  have "snd (CreatePost sv post ms st) =
          snd (writePost sv (Top (FormatInt (ID post) @ ''.md''))
                 (snd (renderPost sv (post\<lparr>ImageNames := []\<rparr>)))
                 (st\<lparr>posts := MkdirAll_posts (posts st)\<rparr>))"
    using True by (auto simp: CreatePost_def Let_def split: prod.splits option.splits)
  then show ?thesis
    using True MkdirAll_posts_shapes [of "posts st" x]
      writePost_shapes_Top [of sv "FormatInt (ID post) @ ''.md''" _ "st\<lparr>posts := MkdirAll_posts (posts st)\<rparr>" x]
    by auto
next
  case False
  show ?thesis
  proof (cases "MkdirAll (FormatInt (ID post)) (posts st)")
    case None
    then show ?thesis using False by (simp add: CreatePost_def Let_def)
  next
    case (Some t)
    let ?post = "post\<lparr>ImageNames := createImageNames 0 ms\<rparr>"
    let ?w = "writePost sv (Inside (FormatInt (ID post)) ''index.md'') (snd (renderPost sv ?post))
                (st\<lparr>posts := t\<rparr>)"
    have w: "is_file (posts (snd ?w)) x = is_file t x \<and> is_dir (posts (snd ?w)) x = is_dir t x"
      using writePost_shapes_Inside [of sv "FormatInt (ID post)" "''index.md''" _ "st\<lparr>posts := t\<rparr>" x]
      by simp
    have "is_file (posts (snd (CreatePost sv post ms st))) x = is_file t x
        \<and> is_dir (posts (snd (CreatePost sv post ms st))) x = is_dir t x"
    proof (cases ?w)
      case (Pair r st1)
      then show ?thesis
        using w False Some writeMedia_shapes [of sv "ID post" "zip (createImageNames 0 ms) ms" st1 x]
        by (cases r) (simp_all add: CreatePost_def Let_def)
    qed
    with MkdirAll_shapes [OF Some, of x] False show ?thesis by auto
  qed
qed


lemma editContent_shapes:
  "(is_file (posts (snd (editContent sv post e names st))) x \<longrightarrow>
      is_file (posts st) x \<or> (names = [] \<and> x = FormatInt e @ ''.md''))
 \<and> (is_dir (posts (snd (editContent sv post e names st))) x \<longrightarrow>
      is_dir (posts st) x \<or> (names \<noteq> [] \<and> x = FormatInt e))"
proof (cases "names = []")
  case True
  then show ?thesis
    using writePost_shapes_Top [of sv "FormatInt e @ ''.md''" _ st x]
    by (auto simp: editContent_def Let_def)
next
  case False
  show ?thesis
  proof (cases "MkdirAll (FormatInt e) (posts st)")
    case None
    then show ?thesis using False by (simp add: editContent_def Let_def)
  next
    case (Some t)
    then show ?thesis
      using False MkdirAll_shapes [OF Some, of x]
        writePost_shapes_Inside [of sv "FormatInt e" "''index.md''" _ "st\<lparr>posts := t\<rparr>" x]
      by (auto simp: editContent_def Let_def)
  qed
qed

lemma editMedia_shapes:
  "(is_file (posts (snd (editMedia sv orig e m st))) x \<longrightarrow> is_file (posts st) x)
 \<and> (is_dir (posts (snd (editMedia sv orig e m st))) x \<longrightarrow> is_dir (posts st) x \<or> x = FormatInt e)"
proof (cases "MkdirAll (FormatInt e) (posts st)")
  case None
  then show ?thesis by (simp add: editMedia_def Let_def)
next
  case (Some t)
  show ?thesis
  proof (cases "WriteFile (Inside (FormatInt e) (''image_'' @ FormatInt (orig - e) @ ''.'' @ getImageFormat m)) m t")
    case None
    then show ?thesis using Some MkdirAll_shapes [OF Some, of x]
      by (auto simp: editMedia_def Let_def)
  next
    case (Some t1)
    then show ?thesis
      using \<open>MkdirAll (FormatInt e) (posts st) = Some t\<close>
        MkdirAll_shapes [OF \<open>MkdirAll (FormatInt e) (posts st) = Some t\<close>, of x]
        WriteFile_Inside_shapes [OF Some, of x]
      by (auto simp: editMedia_def Let_def)
  qed
qed

lemma EditPost_shapes:
  assumes "getEditablePostID st (ID post) = Inr e"
    and "getPostImageNames st e = Inr names"
  shows "(is_file (posts (snd (EditPost sv post mediaFile st))) x \<longrightarrow>
            is_file (posts st) x \<or> (Content post \<noteq> [] \<and> names = [] \<and> x = FormatInt e @ ''.md''))
       \<and> (is_dir (posts (snd (EditPost sv post mediaFile st))) x \<longrightarrow>
            is_dir (posts st) x
            \<or> ((mediaFile \<noteq> None \<or> (Content post \<noteq> [] \<and> names \<noteq> [])) \<and> x = FormatInt e))"
proof -
  let ?c = "if Content post \<noteq> [] then editContent sv post e names st else (None, st)"
  have c: "(is_file (posts (snd ?c)) x \<longrightarrow>
              is_file (posts st) x \<or> (Content post \<noteq> [] \<and> names = [] \<and> x = FormatInt e @ ''.md''))
         \<and> (is_dir (posts (snd ?c)) x \<longrightarrow>
              is_dir (posts st) x \<or> (Content post \<noteq> [] \<and> names \<noteq> [] \<and> x = FormatInt e))"
    using editContent_shapes [of sv post e names st x] by auto
  obtain r st1 where p: "?c = (r, st1)" by (cases ?c)
  show ?thesis
  proof (cases r)
    case (Some err)
    then show ?thesis using assms p c by (auto simp: EditPost_def Let_def)
  next
    case None
    show ?thesis
    proof (cases mediaFile)
      case None
      then show ?thesis using assms p c \<open>r = None\<close> by (auto simp: EditPost_def Let_def)
    next
      case (Some m)
      then show ?thesis
        using assms p c \<open>r = None\<close> editMedia_shapes [of sv "ID post" e m st1 x]
        by (auto simp: EditPost_def Let_def)
    qed
  qed
qed

lemma EditPost_unresolved:
  "getEditablePostID st (ID post) = Inl err \<Longrightarrow> snd (EditPost sv post mediaFile st) = st"
  "getEditablePostID st (ID post) = Inr e \<Longrightarrow> getPostImageNames st e = Inl err \<Longrightarrow>
     snd (EditPost sv post mediaFile st) = st"
  by (simp_all add: EditPost_def Let_def)


lemma editMedia_ok:
  assumes "editMedia sv orig e m st = (None, st')"
  shows "file_in (posts st') (FormatInt e) (''image_'' @ FormatInt (orig - e) @ ''.'' @ getImageFormat m) = Some m
       \<and> git st' = git st @ [GitAdd (joinPath sv [relPostsDir sv, FormatInt e,
                    ''image_'' @ FormatInt (orig - e) @ ''.'' @ getImageFormat m])]"
  using assms
  by (auto simp: editMedia_def Let_def MkdirAll_def WriteFile_def file_in_def map_of_assign git_call_def
           split: option.splits node.splits if_splits)

lemma editMedia_succeeds:
  assumes "\<not> is_file (posts st) (FormatInt e)"
    and "addOk sv (joinPath sv [relPostsDir sv, FormatInt e,
                    ''image_'' @ FormatInt (orig - e) @ ''.'' @ getImageFormat m])"
  shows "fst (editMedia sv orig e m st) = None"
  using assms
  by (auto simp: editMedia_def Let_def MkdirAll_def WriteFile_def is_file_def map_of_assign git_call_def
           split: option.splits node.splits if_splits)

lemmas format_eval = FormatInt_def dec_int_def dec_nat.simps
lemmas os_eval =
  MkdirAll_def MkdirAll_posts_def WriteFile_def RemoveAll_def Remove_def ReadDir_def
  ReadDir_posts_def unlink_def sort_by_name_def sort_names_def
lemmas service_eval =
  CreatePost_def EditPost_def editContent_def editMedia_def editImageNames_def writePost_def
  DeletePost_def deleteOne_def getPostImageNames_def getEditablePostID_def
  closestID_def git_call_def path_under_def ParseInt_def ParseUint_def is_digit_def
  digit_val_def abs64_def TrimSpace_def space_runes_def getImageFormat_def Let_def
lemmas example_eval =
  example_service_def example_time_def png_bytes_def jpeg_bytes_def example_post_def
lemmas shape_eval = is_file_def is_dir_def both_shapes_def one_shape_def file_in_def

lemma FormatInt_diff:
  fixes a b :: int64
  assumes "- (2 ^ 63) \<le> sint a - sint b" "sint a - sint b < 2 ^ 63"
  shows "FormatInt (a - b) = dec_int (sint a - sint b)"
  using assms by (simp add: FormatInt_def sint_word_ariths signed_take_bit_int_eq_self)

text \<open>
  C4, as stated, fails where the difference leaves the range of \<open>int64\<close>: the index is
  computed as \<open>originalPostID - editablePostID\<close> on \<open>int64\<close> and wraps.  With the post
  \<open>-1\<close> on disk and the request 9223372036854775807, the file written is
  \<open>image_-9223372036854775808.png\<close>, while the requested identifier minus the resolved
  one is 9223372036854775808.
\<close>

theorem EditPost_media_name_wraps:
  "getEditablePostID \<lparr>posts = Some [(''-1'', Dir [(''image_0.jpg'', jpeg_bytes)])], git = []\<rparr>
     (ID (example_post 9223372036854775807 [])) = Inr (- 1)
 \<and> file_in (posts (snd (EditPost example_service (example_post 9223372036854775807 [])
                          (Some png_bytes)
                          \<lparr>posts = Some [(''-1'', Dir [(''image_0.jpg'', jpeg_bytes)])], git = []\<rparr>)))
       ''-1'' ''image_-9223372036854775808.png'' = Some png_bytes
 \<and> sint (9223372036854775807 :: int64) - sint (- 1 :: int64) = 9223372036854775808"
  by (simp add: format_eval os_eval service_eval example_eval shape_eval)

text \<open>
  C4, amended: when the requested identifier minus the resolved one lies in the range of
  \<open>int64\<close> and EditPost, given a new media buffer, returns without error, the file it has
  written into the directory of the resolved post is named \<open>image_<offset>.<ext>\<close>, the
  offset being the requested identifier minus the resolved one and the extension the one
  the classifier gives; it is the file staged last.  With no content to rewrite, the call
  does return without error whenever no plain file has the name of the directory and the
  staging succeeds.
\<close>

theorem EditPost_media_offset:
  assumes "getEditablePostID st (ID post) = Inr e"
    and "- (2 ^ 63) \<le> sint (ID post) - sint e" and "sint (ID post) - sint e < 2 ^ 63"
  shows "(EditPost sv post (Some m) st = (None, st') \<longrightarrow>
            file_in (posts st') (FormatInt e)
              (''image_'' @ dec_int (sint (ID post) - sint e) @ ''.'' @ getImageFormat m) = Some m
          \<and> last (git st') = GitAdd (joinPath sv [relPostsDir sv, FormatInt e,
                    ''image_'' @ dec_int (sint (ID post) - sint e) @ ''.'' @ getImageFormat m]))
       \<and> (Content post = [] \<and> \<not> is_file (posts st) (FormatInt e)
            \<and> addOk sv (joinPath sv [relPostsDir sv, FormatInt e,
                    ''image_'' @ dec_int (sint (ID post) - sint e) @ ''.'' @ getImageFormat m])
          \<longrightarrow> fst (EditPost sv post (Some m) st) = None)"
proof (rule conjI; rule impI)
  note f = FormatInt_diff [OF assms(2,3)]
  assume ok: "EditPost sv post (Some m) st = (None, st')"
  then obtain st1 where "editMedia sv (ID post) e m st1 = (None, st')"
    using assms(1)
    by (auto simp: EditPost_def Let_def split: sum.splits prod.splits option.splits if_splits)
  from editMedia_ok [OF this]
  show "file_in (posts st') (FormatInt e)
              (''image_'' @ dec_int (sint (ID post) - sint e) @ ''.'' @ getImageFormat m) = Some m
          \<and> last (git st') = GitAdd (joinPath sv [relPostsDir sv, FormatInt e,
                    ''image_'' @ dec_int (sint (ID post) - sint e) @ ''.'' @ getImageFormat m])"
    by (simp add: f)
next
  note f = FormatInt_diff [OF assms(2,3)]
  assume a: "Content post = [] \<and> \<not> is_file (posts st) (FormatInt e)
            \<and> addOk sv (joinPath sv [relPostsDir sv, FormatInt e,
                    ''image_'' @ dec_int (sint (ID post) - sint e) @ ''.'' @ getImageFormat m])"
  then have names: "\<exists>ns. getPostImageNames st e = Inr ns"
    by (auto simp: getPostImageNames_def ReadDir_def is_file_def split: option.splits node.splits)
  from a editMedia_succeeds [of st e sv "ID post" m] have "fst (editMedia sv (ID post) e m st) = None"
    by (simp add: f)
  with names a assms(1) show "fst (EditPost sv post (Some m) st) = None"
    by (auto simp: EditPost_def Let_def split: prod.splits)
qed

theorem EditPost_media_offset_witness:
  "fst (EditPost example_service (example_post 205 []) (Some png_bytes)
          \<lparr>posts = Some [(''200'', Dir [(''index.md'', []), (''image_0.jpg'', jpeg_bytes)])],
           git = []\<rparr>) = None
 \<and> file_in (posts (snd (EditPost example_service (example_post 205 []) (Some png_bytes)
          \<lparr>posts = Some [(''200'', Dir [(''index.md'', []), (''image_0.jpg'', jpeg_bytes)])],
           git = []\<rparr>)))
       ''200'' ''image_5.png'' = Some png_bytes"
proof -
  let ?st = "\<lparr>posts = Some [(''200'', Dir [(''index.md'', []), (''image_0.jpg'', jpeg_bytes)])],
              git = []\<rparr>"
  let ?st' = "\<lparr>posts = Some [(''200'', Dir [(''index.md'', []), (''image_0.jpg'', jpeg_bytes),
                                          (''image_5.png'', png_bytes)])],
               git = [GitAdd ''content/posts/200/image_5.png'']\<rparr>"
  have resolved: "getEditablePostID ?st (ID (example_post 205 [])) = Inr 200"
    by (simp add: format_eval os_eval service_eval example_eval)
  have lo: "- (2 ^ 63) \<le> sint (ID (example_post 205 [])) - sint (200 :: int64)"
    and hi: "sint (ID (example_post 205 [])) - sint (200 :: int64) < 2 ^ 63"
    by (simp_all add: example_eval)
  have run: "EditPost example_service (example_post 205 []) (Some png_bytes) ?st = (None, ?st')"
    by (simp add: format_eval os_eval service_eval example_eval)
  have name: "''image_'' @ dec_int (sint (ID (example_post 205 [])) - sint (200 :: int64)) @ ''.''
                @ getImageFormat png_bytes = ''image_5.png''"
    and dir: "FormatInt 200 = ''200''"
    by (simp_all add: format_eval service_eval example_eval)
  from EditPost_media_offset [OF resolved lo hi, of example_service png_bytes ?st'] run
  have "file_in (posts ?st') (FormatInt 200)
          (''image_'' @ dec_int (sint (ID (example_post 205 [])) - sint (200 :: int64)) @ ''.''
             @ getImageFormat png_bytes) = Some png_bytes"
    by blast
  then show ?thesis
    using run name dir by simp
qed

text \<open>
  C8: an entry of the batch that is not empty after trimming and does not parse as an
  integer makes DeletePost return the error for it; the state returned is the one the
  entries before it have left, so nothing is done for the entry itself (and nothing after
  it, the commit included) and the earlier deletions stay.
\<close>

theorem DeletePost_invalid_id:
  assumes "Split ids (CHR '','') = pre @ bad # rest"
    and "deleteLoop sv pre st = (None, st1)"
    and "TrimSpace bad \<noteq> []"
    and "ParseInt (TrimSpace bad) = None"
  shows "DeletePost sv ids st = (Some (InvalidPostID (TrimSpace bad)), st1)"
  using assms deleteLoop_append [of sv pre st st1 "bad # rest"]
  by (simp add: DeletePost_def Let_def)

theorem DeletePost_invalid_id_witness:
  "DeletePost example_service ''600, abc,601''
     \<lparr>posts = Some [(''600.md'', File []), (''601.md'', File [])], git = []\<rparr>
   = (Some (InvalidPostID ''abc''),
      \<lparr>posts = Some [(''601.md'', File [])], git = [GitRemove ''content/posts/600.md'']\<rparr>)"
proof -
  have split: "Split ''600, abc,601'' (CHR '','') = [''600''] @ '' abc'' # [''601'']"
    by simp
  have before:
    "deleteLoop example_service [''600'']
       \<lparr>posts = Some [(''600.md'', File []), (''601.md'', File [])], git = []\<rparr>
     = (None, \<lparr>posts = Some [(''601.md'', File [])],
               git = [GitRemove ''content/posts/600.md'']\<rparr>)"
    by (simp add: format_eval os_eval service_eval example_eval)
  have trimmed: "TrimSpace '' abc'' = ''abc''"
    by (simp add: TrimSpace_def space_runes_def)
  have nonempty: "TrimSpace '' abc'' \<noteq> []" and bad: "ParseInt (TrimSpace '' abc'') = None"
    by (simp_all add: trimmed ParseInt_def ParseUint_def is_digit_def)
  from DeletePost_invalid_id [OF split before nonempty bad] trimmed
  show ?thesis by simp
qed

text \<open>
  C10: DeletePost does what it would do on the batch without the entries that are empty
  after trimming: they raise no error, touch nothing and do not stop the entries after
  them (the commit message still carries the batch as it was given).
\<close>

theorem DeletePost_skips_blank:
  "DeletePost sv ids st =
     (case deleteLoop sv (filter (\<lambda>e. TrimSpace e \<noteq> []) (Split ids (CHR '',''))) st of
        (Some e, st1) \<Rightarrow> (Some e, st1)
      | (None, st1) \<Rightarrow>
          (if commitOk sv (''Delete post(s): '' @ ids) then None else Some FailedCommitAndPush,
           git_call (GitCommitAndPush (''Delete post(s): '' @ ids)) st1))"
  using deleteLoop_filter [of sv "Split ids (CHR '','')" st]
  by (auto simp: DeletePost_def Let_def split: prod.splits option.splits)

theorem DeletePost_skips_blank_witness:
  "DeletePost example_service ''600,,601''
     \<lparr>posts = Some [(''600.md'', File []), (''601.md'', File [])], git = []\<rparr>
   = (None, \<lparr>posts = Some [],
             git = [GitRemove ''content/posts/600.md'', GitRemove ''content/posts/601.md'',
                    GitCommitAndPush ''Delete post(s): 600,,601'']\<rparr>)
 \<and> DeletePost example_service ''600,''
     \<lparr>posts = Some [(''600.md'', File []), (''601.md'', File [])], git = []\<rparr>
   = (None, \<lparr>posts = Some [(''601.md'', File [])],
             git = [GitRemove ''content/posts/600.md'',
                    GitCommitAndPush ''Delete post(s): 600,'']\<rparr>)"
  using DeletePost_skips_blank
    [of example_service "''600,,601''"
        "\<lparr>posts = Some [(''600.md'', File []), (''601.md'', File [])], git = []\<rparr>"]
    DeletePost_skips_blank
    [of example_service "''600,''"
        "\<lparr>posts = Some [(''600.md'', File []), (''601.md'', File [])], git = []\<rparr>"]
  by (simp add: format_eval os_eval service_eval example_eval)

text \<open>
  C1, as stated, fails: CreatePost without media on the empty store writes \<open>100.md\<close>, and
  EditPost with a media buffer and no content then creates the directory \<open>100/\<close> beside
  it.
\<close>

theorem EditPost_media_on_loose_file:
  "one_shape (posts (snd (CreatePost example_service (example_post 100 ''Hello'') []
                       \<lparr>posts = None, git = []\<rparr>)))
 \<and> fst (EditPost example_service (example_post 100 []) (Some png_bytes)
        (snd (CreatePost example_service (example_post 100 ''Hello'') []
                \<lparr>posts = None, git = []\<rparr>))) = None
 \<and> both_shapes
      (posts (snd (EditPost example_service (example_post 100 []) (Some png_bytes)
         (snd (CreatePost example_service (example_post 100 ''Hello'') []
                \<lparr>posts = None, git = []\<rparr>)))))
      (FormatInt 100)"
  by (simp add: format_eval os_eval service_eval example_eval shape_eval)

text \<open>
  C1, amended: from a state in which no name has both a loose file and a directory,
  DeletePost always leads to such a state; CreatePost does when the post is not already on
  disk in the other shape (no directory \<open><id>/\<close> when there is no media, no file
  \<open><id>.md\<close> when there is); EditPost does when, for the resolved post, a media buffer
  comes with no loose file \<open><id>.md\<close> on disk, and content for a post without image files
  comes with no directory \<open><id>/\<close> and no media buffer.
\<close>

theorem one_shape_preserved:
  assumes "one_shape (posts st)"
  shows "one_shape (posts (snd (DeletePost sv ids st)))
     \<and> ((ms = [] \<longrightarrow> \<not> is_dir (posts st) (FormatInt (ID post)))
          \<and> (ms \<noteq> [] \<longrightarrow> \<not> is_file (posts st) (FormatInt (ID post) @ ''.md''))
        \<longrightarrow> one_shape (posts (snd (CreatePost sv post ms st))))
     \<and> ((\<forall>e names. getEditablePostID st (ID epost) = Inr e \<and> getPostImageNames st e = Inr names
            \<longrightarrow> (Content epost \<noteq> [] \<and> names = []
                    \<longrightarrow> \<not> is_dir (posts st) (FormatInt e) \<and> mediaFile = None)
                \<and> (mediaFile \<noteq> None \<longrightarrow> \<not> is_file (posts st) (FormatInt e @ ''.md'')))
        \<longrightarrow> one_shape (posts (snd (EditPost sv epost mediaFile st))))"
proof (intro conjI impI)
  show "one_shape (posts (snd (DeletePost sv ids st)))"
    using assms DeletePost_shapes [of sv ids st] by (auto simp: one_shape_def both_shapes_def)
next
  assume "(ms = [] \<longrightarrow> \<not> is_dir (posts st) (FormatInt (ID post)))
          \<and> (ms \<noteq> [] \<longrightarrow> \<not> is_file (posts st) (FormatInt (ID post) @ ''.md''))"
  then show "one_shape (posts (snd (CreatePost sv post ms st)))"
    using assms CreatePost_shapes [of sv post ms st]
    by (auto simp: one_shape_def both_shapes_def)
next
  assume h: "\<forall>e names. getEditablePostID st (ID epost) = Inr e \<and> getPostImageNames st e = Inr names
            \<longrightarrow> (Content epost \<noteq> [] \<and> names = []
                    \<longrightarrow> \<not> is_dir (posts st) (FormatInt e) \<and> mediaFile = None)
                \<and> (mediaFile \<noteq> None \<longrightarrow> \<not> is_file (posts st) (FormatInt e @ ''.md''))"
  show "one_shape (posts (snd (EditPost sv epost mediaFile st)))"
  proof (cases "getEditablePostID st (ID epost)")
    case (Inl err)
    then show ?thesis using assms by (simp add: EditPost_def Let_def)
  next
    case (Inr e)
    show ?thesis
    proof (cases "getPostImageNames st e")
      case (Inl err)
      then show ?thesis using assms Inr by (simp add: EditPost_def Let_def)
    next
      case (Inr names)
      have dir: "is_dir (posts st) (FormatInt e)" if "names \<noteq> []"
        using that Inr
        by (auto simp: getPostImageNames_def ReadDir_def is_dir_def
                 split: option.splits node.splits)
      from h \<open>getEditablePostID st (ID epost) = Inr e\<close> Inr
      have c: "(Content epost \<noteq> [] \<and> names = []
                    \<longrightarrow> \<not> is_dir (posts st) (FormatInt e) \<and> mediaFile = None)
                \<and> (mediaFile \<noteq> None \<longrightarrow> \<not> is_file (posts st) (FormatInt e @ ''.md''))"
        by blast
      show ?thesis
        unfolding one_shape_def both_shapes_def
      proof (intro allI notI)
        fix name
        assume b: "is_file (posts (snd (EditPost sv epost mediaFile st))) (name @ ''.md'')
                 \<and> is_dir (posts (snd (EditPost sv epost mediaFile st))) name"
        from EditPost_shapes [OF \<open>getEditablePostID st (ID epost) = Inr e\<close> Inr, of sv mediaFile "name @ ''.md''"]
             EditPost_shapes [OF \<open>getEditablePostID st (ID epost) = Inr e\<close> Inr, of sv mediaFile name]
             b c dir assms
        show False
          by (auto simp: one_shape_def both_shapes_def)
      qed
    qed
  qed
qed

theorem one_shape_preserved_witness:
  "one_shape (posts \<lparr>posts = Some [(''100.md'', File [])], git = []\<rparr>)
 \<and> one_shape (posts (snd (DeletePost example_service ''100''
                  \<lparr>posts = Some [(''100.md'', File [])], git = []\<rparr>)))
 \<and> one_shape (posts (snd (CreatePost example_service (example_post 200 ''Hi'') [png_bytes]
                  \<lparr>posts = Some [(''100.md'', File [])], git = []\<rparr>)))
 \<and> one_shape (posts (snd (EditPost example_service (example_post 101 ''Hi'') None
                  \<lparr>posts = Some [(''100.md'', File [])], git = []\<rparr>)))"
proof -
  let ?st = "\<lparr>posts = Some [(''100.md'', File [])], git = []\<rparr>"
  have inv: "one_shape (posts ?st)"
    by (simp add: shape_eval)
  have create: "([png_bytes] = [] \<longrightarrow> \<not> is_dir (posts ?st) (FormatInt (ID (example_post 200 ''Hi''))))
          \<and> ([png_bytes] \<noteq> [] \<longrightarrow> \<not> is_file (posts ?st) (FormatInt (ID (example_post 200 ''Hi'')) @ ''.md''))"
    by (simp add: shape_eval example_eval format_eval)
  have edit: "\<forall>e names. getEditablePostID ?st (ID (example_post 101 ''Hi'')) = Inr e
                 \<and> getPostImageNames ?st e = Inr names
            \<longrightarrow> (Content (example_post 101 ''Hi'') \<noteq> [] \<and> names = []
                    \<longrightarrow> \<not> is_dir (posts ?st) (FormatInt e) \<and> (None :: byte list option) = None)
                \<and> ((None :: byte list option) \<noteq> None \<longrightarrow> \<not> is_file (posts ?st) (FormatInt e @ ''.md''))"
    by (simp add: shape_eval example_eval format_eval os_eval service_eval)
  from one_shape_preserved [OF inv, where sv = example_service and ids = "''100''"
         and ms = "[png_bytes]" and post = "example_post 200 ''Hi''"
         and epost = "example_post 101 ''Hi''" and mediaFile = None] create edit inv
  show ?thesis by blast
qed

subsection \<open>Markup transformer: the order of the placeholder map\<close>

lemmas markup_eval =
  ProcessContent_def codeMatch_def lazyMatch_def codeBlockMatch_def blockquoteMatch_def
  spoilerMatch_def reinsertCodeBlocks_def escape_angle_def markdownCodeBlock_def
  TrimRight_nl_def placeholder_def rune_string_def byte_char_def Let_def

text \<open>
  C6: the output depends on the order in which the loop over the map meets the
  placeholders.  The input has two code blocks, the body of the first being the text of
  the placeholder of the second.  Met in the order of insertion, the first placeholder is
  replaced first and the second replacement then also rewrites the body of the first
  block; met in the reverse order, the body stays.  Both orders are permutations of the
  map's entries, so two runs of the Go program on this input may differ.
\<close>

theorem ProcessContent_depends_on_map_order:
  "ProcessContent (\<lambda>entries. entries)
     ''<pre><code class=\"language-x\">___CODEBLOCK_B___</code></pre><pre><code class=\"language-y\">q</code></pre>''
   \<noteq> ProcessContent rev
     ''<pre><code class=\"language-x\">___CODEBLOCK_B___</code></pre><pre><code class=\"language-y\">q</code></pre>''"
  by (simp add: markup_eval)

subsection \<open>Front-matter builder\<close>

lemma Contains_set: "Contains s sub \<Longrightarrow> set sub \<subseteq> set s"
proof (induction s)
  case Nil
  then show ?case by simp
next
  case (Cons c cs)
  then show ?case using set_mono_prefix [of sub "c # cs"] by auto
qed



lemma set_ReplaceAll: "set (ReplaceAll s old new) \<subseteq> set s \<union> set new"
proof (induction s old new rule: ReplaceAll.induct)
  case (1 old new)
  then show ?case by auto
next
  case (2 c cs old new)
  show ?case
  proof (cases "old = []")
    case True
    with 2 show ?thesis by auto
  next
    case False
    show ?thesis
    proof (cases "prefix old (c # cs)")
      case True
      with 2 False have "set (ReplaceAll (drop (length old - 1) cs) old new)
                          \<subseteq> set (drop (length old - 1) cs) \<union> set new" by simp
      moreover have "set (drop (length old - 1) cs) \<subseteq> set cs" by (rule set_drop_subset)
      ultimately show ?thesis using True False by auto
    next
      case nopre: False
      with 2 False show ?thesis by auto
    qed
  qed
qed
















subsection \<open>Title extractor: what RemoveAddressPattern leaves\<close>

lemma hexTokenMatch_token:
  assumes "hs \<noteq> []" "list_all is_hex hs" "nl = [] \<or> nl = [CHR 0x0A]"
  shows "hexTokenMatch (''0x'' @ hs @ nl) = Some (length (''0x'' @ hs @ nl))"
proof -
  have nl: "takeWhile is_hex nl = []" "dropWhile is_hex nl = nl"
    using assms(3) by (auto simp: is_hex_def)
  have "takeWhile is_hex (hs @ nl) = hs" "dropWhile is_hex (hs @ nl) = nl"
    using assms(2) nl by (simp_all add: list_all_iff)
  then show ?thesis
    using assms(1,3) by (auto simp: hexTokenMatch_def Let_def)
qed

lemma hexTokenMatch_end:
  assumes "hexTokenMatch s = Some n"
  shows "0 < n \<and> n \<le> length s \<and> (drop n s = [] \<or> hd (drop n s) = CHR 0x0A)"
proof -
  from assms obtain t where s: "s = CHR ''0'' # CHR ''x'' # t"
    by (cases s; cases "tl s") (auto simp: hexTokenMatch_def split: if_splits)
  define d where "d = takeWhile is_hex t"
  define r where "r = dropWhile is_hex t"
  have t: "t = d @ r" by (simp add: d_def r_def)
  have eq: "hexTokenMatch s =
      (if d = [] then None
       else (case r of
               [] \<Rightarrow> Some (2 + length d)
             | c # r' \<Rightarrow>
                 if c = CHR 0x0A then
                   (if r' = [] \<or> hd r' = CHR 0x0A then Some (2 + length d + 1)
                    else Some (2 + length d))
                 else None))"
    unfolding d_def r_def
    by (simp add: hexTokenMatch_def s Let_def cong: list.case_cong if_cong)
  show ?thesis
  proof (cases r)
    case Nil
    with assms eq have "n = 2 + length d" by (auto split: if_splits)
    then show ?thesis using s t Nil by simp
  next
    case (Cons c r')
    with assms eq have c: "c = CHR 0x0A" by (auto split: if_splits)
    show ?thesis
    proof (cases "r' = [] \<or> hd r' = CHR 0x0A")
      case True
      with assms eq Cons c have "n = 3 + length d" by (auto split: if_splits)
      then have "drop n s = r'" using s t Cons by (simp add: numeral_3_eq_3)
      then show ?thesis using True \<open>n = 3 + length d\<close> s t Cons by auto
    next
      case False
      with assms eq Cons c have "n = 2 + length d" by (auto split: if_splits)
      then have "drop n s = c # r'" using s t Cons by (simp add: numeral_2_eq_2)
      then show ?thesis using c \<open>n = 2 + length d\<close> s t Cons by auto
    qed
  qed
qed

lemma addressMatch_end:
  assumes "addressMatch s = Some n"
  shows "0 < n \<and> n \<le> length s \<and> (drop n s = [] \<or> hd (drop n s) = CHR 0x0A)"
proof -
  consider (plain) "hexTokenMatch s = Some n"
    | (break) a b c s' n' where "s = a # b # c # s'" "hexTokenMatch s' = Some n'" "n = 3 + n'"
    using assms by (auto simp: addressMatch_def split: list.splits if_splits)
  then show ?thesis
  proof cases
    case plain
    then show ?thesis by (rule hexTokenMatch_end)
  next
    case break
    from hexTokenMatch_end [OF break(2)] break(1,3) show ?thesis by (simp add: numeral_3_eq_3)
  qed
qed

lemma Remove_Nil [simp]: "RemoveAddressPattern [] = []"
  by (simp add: RemoveAddressPattern_def)

lemma Remove_None:
  "addressMatch (c # cs) = None \<Longrightarrow> RemoveAddressPattern (c # cs) = c # RemoveAddressPattern cs"
  by (simp add: RemoveAddressPattern_def)

lemma Remove_Some:
  assumes "addressMatch (c # cs) = Some n"
  shows "RemoveAddressPattern (c # cs) = RemoveAddressPattern (drop n (c # cs))"
proof -
  from addressMatch_end [OF assms] obtain k where "n = Suc k" by (cases n) auto
  then show ?thesis using assms by (simp add: RemoveAddressPattern_def)
qed

lemma Remove_after_match:
  "s = [] \<or> hd s = CHR 0x0A \<Longrightarrow>
     RemoveAddressPattern s = [] \<or> hd (RemoveAddressPattern s) = CHR 0x0A"
proof (induction "length s" arbitrary: s rule: less_induct)
  case less
  show ?case
  proof (cases s)
    case Nil
    then show ?thesis by simp
  next
    case (Cons c cs)
    with less.prems have c: "c = CHR 0x0A" by simp
    show ?thesis
    proof (cases "addressMatch (c # cs)")
      case None
      then show ?thesis using Cons c by (simp add: Remove_None)
    next
      case (Some n)
      from addressMatch_end [OF Some]
      have "length (drop n (c # cs)) < length s"
        and "drop n (c # cs) = [] \<or> hd (drop n (c # cs)) = CHR 0x0A"
        using Cons by auto
      from less.hyps [OF this] show ?thesis using Cons Some by (simp add: Remove_Some)
    qed
  qed
qed

lemma Remove_unmatched_run:
  "CHR 0x0A \<notin> set w \<Longrightarrow> RemoveAddressPattern s = w \<Longrightarrow>
     \<exists>M. s = w @ M \<and> RemoveAddressPattern M = []"
proof (induction s arbitrary: w)
  case Nil
  then show ?case by simp
next
  case (Cons c cs)
  show ?case
  proof (cases "addressMatch (c # cs)")
    case None
    with Cons.prems obtain w' where w: "w = c # w'" "RemoveAddressPattern cs = w'"
      by (auto simp: Remove_None)
    with Cons.prems(1) have "CHR 0x0A \<notin> set w'" by simp
    from Cons.IH [OF this w(2)] w(1) show ?thesis by auto
  next
    case (Some n)
    from addressMatch_end [OF Some]
    have "drop n (c # cs) = [] \<or> hd (drop n (c # cs)) = CHR 0x0A" by simp
    from Remove_after_match [OF this] Cons.prems Some
    have "w = []"
      by (cases w) (auto simp: Remove_Some)
    then show ?thesis using Cons.prems(2) by auto
  qed
qed


lemma not_hex_x: "\<not> is_hex (CHR ''x'')" "\<not> is_hex (CHR 0x0A)"
  by (simp_all add: is_hex_def)

lemma takeWhile_all: "list_all P xs \<Longrightarrow> takeWhile P (xs @ ys) = xs @ takeWhile P ys"
  by (induction xs) simp_all

lemma dropWhile_all: "list_all P xs \<Longrightarrow> dropWhile P (xs @ ys) = dropWhile P ys"
  by (induction xs) simp_all

lemma ends_with_address_token:
  "h \<noteq> [] \<Longrightarrow> list_all is_hex h \<Longrightarrow> ends_with_address (p @ ''0x'' @ h)"
proof -
  assume h: "h \<noteq> []" "list_all is_hex h"
  have "takeWhile is_hex (rev h @ CHR ''x'' # CHR ''0'' # rev p) = rev h"
    "dropWhile is_hex (rev h @ CHR ''x'' # CHR ''0'' # rev p) = CHR ''x'' # CHR ''0'' # rev p"
    using h(2) not_hex_x by (simp_all add: takeWhile_all dropWhile_all)
  then show ?thesis using h(1) by (simp add: ends_with_address_def)
qed

lemma ends_with_address_append:
  assumes "ends_with_address P"
  shows "ends_with_address (X @ P)"
proof -
  from assms have "prefix ''x0'' (dropWhile is_hex (rev P))"
    by (simp add: ends_with_address_def)
  then obtain l where "dropWhile is_hex (rev P) = CHR ''x'' # l"
    by (cases "dropWhile is_hex (rev P)") auto
  then have "CHR ''x'' \<in> set (rev P)"
    by (metis list.set_intros(1) set_dropWhileD)
  with not_hex_x(1) obtain y where y: "y \<in> set (rev P)" "\<not> is_hex y"
    by blast
  have "takeWhile is_hex (rev P @ rev X) = takeWhile is_hex (rev P)"
    "dropWhile is_hex (rev P @ rev X) = dropWhile is_hex (rev P) @ rev X"
    using y by (simp_all add: takeWhile_append1 dropWhile_append1)
  then show ?thesis using assms by (auto simp: ends_with_address_def prefix_def)
qed

lemma ends_with_address_Cons:
  assumes "ends_with_address (c # y)"
  shows "ends_with_address y
       \<or> (c = CHR ''0'' \<and> (\<exists>h. y = CHR ''x'' # h \<and> h \<noteq> [] \<and> list_all is_hex h))"
proof (cases "list_all is_hex (rev y)")
  case True
  then have "dropWhile is_hex (rev y @ [c]) = dropWhile is_hex [c]"
    by (rule dropWhile_all)
  then have "length (dropWhile is_hex (rev (c # y))) \<le> 1" by simp
  moreover from assms have "2 \<le> length (dropWhile is_hex (rev (c # y)))"
    by (auto simp: ends_with_address_def prefix_def)
  ultimately show ?thesis by simp
next
  case False
  then obtain z where z: "z \<in> set (rev y)" "\<not> is_hex z" by (auto simp: list_all_iff)
  have tk: "takeWhile is_hex (rev (c # y)) = takeWhile is_hex (rev y)"
    and dr: "dropWhile is_hex (rev (c # y)) = dropWhile is_hex (rev y) @ [c]"
    using z by (simp_all add: takeWhile_append1 dropWhile_append1)
  from assms tk dr have t: "takeWhile is_hex (rev y) \<noteq> []"
    and p: "prefix ''x0'' (dropWhile is_hex (rev y) @ [c])"
    by (simp_all add: ends_with_address_def)
  have ne: "dropWhile is_hex (rev y) \<noteq> []" using z by (auto simp: dropWhile_eq_Nil_conv)
  then obtain d ds where d: "dropWhile is_hex (rev y) = d # ds" by (cases "dropWhile is_hex (rev y)") auto
  with p have dx: "d = CHR ''x''" by simp
  show ?thesis
  proof (cases ds)
    case Nil
    with p d dx have c: "c = CHR ''0''" by simp
    have "rev y = takeWhile is_hex (rev y) @ [CHR ''x'']"
      using d dx Nil by (metis takeWhile_dropWhile_id)
    then have "y = CHR ''x'' # rev (takeWhile is_hex (rev y))"
      by (metis rev_append rev_rev_ident rev_singleton_conv append_Cons append_Nil)
    moreover have "list_all is_hex (rev (takeWhile is_hex (rev y)))"
      by (simp add: list_all_iff) (meson set_takeWhileD)
    ultimately show ?thesis using c t by auto
  next
    case (Cons e es)
    with p d dx have "prefix ''x0'' (dropWhile is_hex (rev y))" by simp
    with t show ?thesis by (simp add: ends_with_address_def)
  qed
qed

lemmas address_eval =
  RemoveAddressPattern_def addressMatch_def hexTokenMatch_def is_hex_def is_regex_space_def
  ends_with_address_def

text \<open>
  C9, as stated, fails: the matches are removed in one pass and the result is not scanned
  again.  In \<open>0x1\<close>, two spaces, a line feed, \<open>0x2\<close> the first token is followed by
  spaces and is no match; the match is the hard break with the second token, and removing
  it leaves \<open>0x1\<close> at the end.
\<close>

theorem RemoveAddressPattern_leaves_address:
  "RemoveAddressPattern (''0x1  '' @ [CHR 0x0A] @ ''0x2'') = ''0x1''
 \<and> ends_with_address (RemoveAddressPattern (''0x1  '' @ [CHR 0x0A] @ ''0x2''))"
  by (simp add: address_eval)

text \<open>
  C9, amended: the result of RemoveAddressPattern ends with an address token only when
  the content has an address token directly followed by a non-empty text that the removal
  deletes entirely.  For every content \<open>C\<close> that cannot be split as \<open>P @ M\<close> with \<open>P\<close>
  ending in an address token and \<open>M\<close> non-empty and removed entirely, no \<open>0x...\<close> token
  remains at the end of the result.
\<close>

theorem RemoveAddressPattern_residual_only_before_removed:
  assumes "\<forall>P M. C = P @ M \<and> M \<noteq> [] \<and> RemoveAddressPattern M = [] \<longrightarrow> \<not> ends_with_address P"
  shows "\<not> ends_with_address (RemoveAddressPattern C)"
proof -
  have main: "ends_with_address (RemoveAddressPattern s) \<Longrightarrow>
      \<exists>P M. s = P @ M \<and> M \<noteq> [] \<and> RemoveAddressPattern M = [] \<and> ends_with_address P" for s
  proof (induction "length s" arbitrary: s rule: less_induct)
    case less
    show ?case
    proof (cases s)
      case Nil
      with less.prems show ?thesis by (simp add: ends_with_address_def)
    next
      case (Cons c cs)
      show ?thesis
      proof (cases "addressMatch (c # cs)")
        case None
        with less.prems Cons have e: "ends_with_address (c # RemoveAddressPattern cs)"
          by (simp add: Remove_None)
        from ends_with_address_Cons [OF e] show ?thesis
        proof
          assume "ends_with_address (RemoveAddressPattern cs)"
          with less.hyps [of cs] Cons obtain P M where
            "cs = P @ M" "M \<noteq> []" "RemoveAddressPattern M = []" "ends_with_address P"
            by auto
          then have "s = (c # P) @ M \<and> M \<noteq> [] \<and> RemoveAddressPattern M = []
                      \<and> ends_with_address (c # P)"
            using Cons ends_with_address_append [of P "[c]"] by simp
          then show ?thesis by blast
        next
          assume "c = CHR ''0'' \<and> (\<exists>h. RemoveAddressPattern cs = CHR ''x'' # h \<and> h \<noteq> []
                    \<and> list_all is_hex h)"
          then obtain h where c: "c = CHR ''0''" and h: "RemoveAddressPattern cs = CHR ''x'' # h"
            "h \<noteq> []" "list_all is_hex h" by auto
          have r: "RemoveAddressPattern s = ''0x'' @ h" using Cons None c h(1) by (simp add: Remove_None)
          have "CHR 0x0A \<notin> set (''0x'' @ h)"
            using h(3) not_hex_x(2) by (auto simp: list_all_iff)
          from Remove_unmatched_run [OF this r] obtain M where
            M: "s = (''0x'' @ h) @ M" "RemoveAddressPattern M = []" by auto
          have "M \<noteq> []"
          proof
            assume "M = []"
            with M(1) have s: "s = ''0x'' @ h @ []" by simp
            obtain h1 hs where "h = h1 # hs" using h(2) by (cases h) auto
            then have "addressMatch s = hexTokenMatch s"
              using s h(3) by (simp add: addressMatch_def is_regex_space_def)
            with hexTokenMatch_token [OF h(2,3), of "[]"] s None Cons show False by simp
          qed
          with M ends_with_address_token [OF h(2,3), of "[]"]
          have "s = (''0x'' @ h) @ M \<and> M \<noteq> [] \<and> RemoveAddressPattern M = []
                  \<and> ends_with_address (''0x'' @ h)"
            by simp
          then show ?thesis by blast
        qed
      next
        case (Some n)
        from addressMatch_end [OF Some] Cons
        have l: "length (drop n s) < length s" and n: "n \<le> length s" by auto
        from less.prems Cons Some have "ends_with_address (RemoveAddressPattern (drop n s))"
          by (simp add: Remove_Some)
        from less.hyps [OF l this] obtain P M where
          "drop n s = P @ M" "M \<noteq> []" "RemoveAddressPattern M = []" "ends_with_address P"
          by auto
        then have "s = (take n s @ P) @ M \<and> M \<noteq> [] \<and> RemoveAddressPattern M = []
                    \<and> ends_with_address (take n s @ P)"
          using ends_with_address_append [of P "take n s"]
          by (metis append_assoc append_take_drop_id)
        then show ?thesis by blast
      qed
    qed
  qed
  show ?thesis
  proof
    assume "ends_with_address (RemoveAddressPattern C)"
    from main [OF this] assms show False by blast
  qed
qed

theorem RemoveAddressPattern_residual_only_before_removed_witness:
  "RemoveAddressPattern (''gm'' @ [CHR 0x0A] @ ''0x1f'') = ''gm'' @ [CHR 0x0A]
 \<and> \<not> ends_with_address (RemoveAddressPattern (''gm'' @ [CHR 0x0A] @ ''0x1f''))"
proof -
  let ?C = "''gm'' @ [CHR 0x0A] @ ''0x1f''"
  have each: "drop k ?C \<noteq> [] \<and> RemoveAddressPattern (drop k ?C) = []
                \<longrightarrow> \<not> ends_with_address (take k ?C)" if "k \<le> 7" for k
  proof -
    from that have "k = 0 \<or> k = 1 \<or> k = 2 \<or> k = 3 \<or> k = 4 \<or> k = 5 \<or> k = 6 \<or> k = 7"
      by arith
    then show ?thesis
      by (elim disjE) (simp_all add: address_eval)
  qed
  have hyp: "\<forall>P M. ?C = P @ M \<and> M \<noteq> [] \<and> RemoveAddressPattern M = []
               \<longrightarrow> \<not> ends_with_address P"
  proof (intro allI impI)
    fix P M
    assume a: "?C = P @ M \<and> M \<noteq> [] \<and> RemoveAddressPattern M = []"
    then have "length P \<le> length ?C" by (metis length_append le_add1)
    then have l: "length P \<le> 7" by simp
    from a have tk: "take (length P) ?C = P" and dr: "drop (length P) ?C = M"
      by (metis append_eq_conv_conj)+
    from each [OF l] have "M \<noteq> [] \<and> RemoveAddressPattern M = [] \<longrightarrow> \<not> ends_with_address P"
      unfolding tk dr .
    with a show "\<not> ends_with_address P" by blast
  qed
  from RemoveAddressPattern_residual_only_before_removed [OF hyp]
  show ?thesis by (simp add: address_eval)
qed

end
